theory Spec2Isabelle
  imports Complex_Main "HOL-Library.Sublist"
begin

section \<open>Weather ETL pipeline: data model\<close>

text \<open>
  The provider's response is arbitrary JSON (\<^verbatim>\<open>response.json()\<close>). A Python dict is an
  association list read with \<open>map_of\<close>; Python's \<^verbatim>\<open>None\<close> and JSON's \<^verbatim>\<open>null\<close> are the same
  value \<open>JNull\<close>. Numbers are idealised as reals (Python's int and float).
\<close>

datatype json =
  JNull
| JBool bool
| JNum real
| JStr string
| JArr "json list"
| JObj "(string \<times> json) list"

text \<open>The exception classes that the modelled code can meet. All but
  \<open>KeyboardInterrupt\<close> are subclasses of Python's \<^verbatim>\<open>Exception\<close>.\<close>

datatype exc =
  WeatherAPIError
| AttributeError
| TypeError
| KeyError
| IndexError
| ValueError
| OverflowError
| RecursionError
| RuntimeError
| KeyboardInterrupt

fun is_Exception :: "exc \<Rightarrow> bool" where
  "is_Exception KeyboardInterrupt = False"
| "is_Exception _ = True"

text \<open>Sequencing of a computation that may raise: the first exception wins.\<close>

fun exc_bind :: "exc + 'a \<Rightarrow> ('a \<Rightarrow> exc + 'b) \<Rightarrow> exc + 'b" where
  "exc_bind (Inl e) f = Inl e"
| "exc_bind (Inr x) f = f x"

text \<open>
  \<^verbatim>\<open>class WeatherObservation(Base)\<close> of models.py. The constructor stores whatever
  value it is given, so the columns read off the payload are JSON values; a datetime is
  an instant in seconds since the epoch. \<open>raw_json\<close> stands for the text
  \<^verbatim>\<open>json.dumps(raw_data)\<close>.
\<close>

record observation =
  obs_id :: "nat option"
  location :: string
  lat :: json
  lon :: json
  timestamp_utc :: real
  temp_c :: "real option"
  temp_k :: json
  feels_like_c :: "real option"
  humidity :: json
  pressure :: json
  wind_speed :: json
  wind_deg :: json
  weather_main :: json
  weather_description :: json
  raw_json :: json
  fetched_at_utc :: real

section \<open>weather\_api.py: transform\_weather\_data\<close>

text \<open>\<^verbatim>\<open>x.get(key, default)\<close>: only a dict has the method; a key that is present
  wins over the default, also when its value is \<^verbatim>\<open>None\<close>.\<close>

fun py_get_default :: "json \<Rightarrow> string \<Rightarrow> json \<Rightarrow> exc + json" where
  "py_get_default (JObj d) k dflt = Inr (case map_of d k of None \<Rightarrow> dflt | Some v \<Rightarrow> v)"
| "py_get_default _ k dflt = Inl AttributeError"

definition py_get :: "json \<Rightarrow> string \<Rightarrow> exc + json" where
  "py_get x k = py_get_default x k JNull"

text \<open>Python truthiness, as used by \<^verbatim>\<open>raw_data.get("weather") or [{}]\<close>.\<close>

fun py_truthy :: "json \<Rightarrow> bool" where
  "py_truthy JNull = False"
| "py_truthy (JBool b) = b"
| "py_truthy (JNum x) = (x \<noteq> 0)"
| "py_truthy (JStr s) = (s \<noteq> [])"
| "py_truthy (JArr xs) = (xs \<noteq> [])"
| "py_truthy (JObj d) = (d \<noteq> [])"

text \<open>\<^verbatim>\<open>x[0]\<close>: the first element of a list or string; a dict has no key \<^verbatim>\<open>0\<close>
  (JSON keys are strings); the other values are not subscriptable.\<close>

fun py_index0 :: "json \<Rightarrow> exc + json" where
  "py_index0 (JArr []) = Inl IndexError"
| "py_index0 (JArr (x # xs)) = Inr x"
| "py_index0 (JStr []) = Inl IndexError"
| "py_index0 (JStr (c # cs)) = Inr (JStr [c])"
| "py_index0 (JObj d) = Inl KeyError"
| "py_index0 _ = Inl TypeError"

text \<open>\<^verbatim>\<open>int(time.time())\<close> truncates towards zero.\<close>

definition py_int :: "real \<Rightarrow> real" where
  "py_int t = of_int (if 0 \<le> t then \<lfloor>t\<rfloor> else \<lceil>t\<rceil>)"

text \<open>\<^verbatim>\<open>datetime.fromtimestamp(x, tz=timezone.utc)\<close>: a number within the years
  1 to 9999; \<^verbatim>\<open>bool\<close> is a subclass of \<^verbatim>\<open>int\<close>.\<close>

fun fromtimestamp :: "json \<Rightarrow> exc + real" where
  "fromtimestamp (JNum t) =
     (if - 62135596800 \<le> t \<and> t < 253402300800 then Inr t else Inl ValueError)"
| "fromtimestamp (JBool b) = Inr (if b then 1 else 0)"
| "fromtimestamp _ = Inl TypeError"

text \<open>
  \<^verbatim>\<open>k - 273.15 if k is not None else None\<close>. A float is always below the bound; an
  \<^verbatim>\<open>int\<close> that rounds to no finite float raises \<^verbatim>\<open>OverflowError\<close> in the subtraction.
\<close>

definition float_range :: "real \<Rightarrow> bool" where
  "float_range x = (\<bar>x\<bar> < 2 ^ 1024 - 2 ^ 970)"

fun kelvin_to_celsius :: "json \<Rightarrow> exc + real option" where
  "kelvin_to_celsius JNull = Inr None"
| "kelvin_to_celsius (JNum k) =
     (if float_range k then Inr (Some (k - 273.15)) else Inl OverflowError)"
| "kelvin_to_celsius (JBool b) = Inr (Some ((if b then 1 else 0) - 273.15))"
| "kelvin_to_celsius _ = Inl TypeError"

text \<open>
  \<open>transform_weather_data location raw_data now\<close>, statement by statement; \<open>now\<close> is
  the wall clock read by \<^verbatim>\<open>time.time()\<close> and \<^verbatim>\<open>datetime.now\<close>. The surrogate key is
  assigned by the store, later.
\<close>

definition transform_weather_data :: "string \<Rightarrow> json \<Rightarrow> real \<Rightarrow> exc + observation" where
  "transform_weather_data loc raw_data now =
     exc_bind (py_get_default raw_data ''dt'' (JNum (py_int now))) (\<lambda>dt.
     exc_bind (fromtimestamp dt) (\<lambda>timestamp.
     exc_bind (py_get_default raw_data ''main'' (JObj [])) (\<lambda>main.
     exc_bind (py_get_default raw_data ''wind'' (JObj [])) (\<lambda>wind.
     exc_bind (py_get raw_data ''weather'') (\<lambda>w.
     exc_bind (py_index0 (if py_truthy w then w else JArr [JObj []])) (\<lambda>weather.
     exc_bind (py_get main ''temp'') (\<lambda>tk.
     exc_bind (kelvin_to_celsius tk) (\<lambda>tc.
     exc_bind (py_get main ''feels_like'') (\<lambda>fk.
     exc_bind (kelvin_to_celsius fk) (\<lambda>fc.
     exc_bind (py_get_default raw_data ''coord'' (JObj [])) (\<lambda>coord1.
     exc_bind (py_get coord1 ''lat'') (\<lambda>la.
     exc_bind (py_get_default raw_data ''coord'' (JObj [])) (\<lambda>coord2.
     exc_bind (py_get coord2 ''lon'') (\<lambda>lo.
     exc_bind (py_get main ''humidity'') (\<lambda>hum.
     exc_bind (py_get main ''pressure'') (\<lambda>pres.
     exc_bind (py_get wind ''speed'') (\<lambda>ws.
     exc_bind (py_get wind ''deg'') (\<lambda>wd.
     exc_bind (py_get weather ''main'') (\<lambda>wm.
     exc_bind (py_get weather ''description'') (\<lambda>wdesc.
       Inr \<lparr> obs_id = None, location = loc, lat = la, lon = lo,
             timestamp_utc = timestamp, temp_c = tc, temp_k = tk, feels_like_c = fc,
             humidity = hum, pressure = pres, wind_speed = ws, wind_deg = wd,
             weather_main = wm, weather_description = wdesc,
             raw_json = raw_data, fetched_at_utc = now \<rparr>))))))))))))))))))))"

text \<open>\<open>validate_weather_data\<close> returns \<^verbatim>\<open>True\<close> for every observation.\<close>

definition validate_weather_data :: "observation \<Rightarrow> bool" where
  "validate_weather_data observation = True"

subsection \<open>Payloads of the provider's shape\<close>

text \<open>
  What the provider documents: an object whose \<^verbatim>\<open>dt\<close> is a timestamp, whose \<^verbatim>\<open>main\<close>,
  \<^verbatim>\<open>wind\<close> and \<^verbatim>\<open>coord\<close> are objects, whose \<^verbatim>\<open>weather\<close> is an array of objects and whose
  Kelvin readings are numbers that a float can hold; each of them may be absent.
\<close>

fun absent_or :: "(json \<Rightarrow> bool) \<Rightarrow> json option \<Rightarrow> bool" where
  "absent_or P None = True"
| "absent_or P (Some v) = P v"

fun is_object :: "json \<Rightarrow> bool" where
  "is_object (JObj d) = True"
| "is_object _ = False"

fun is_timestamp :: "json \<Rightarrow> bool" where
  "is_timestamp (JNum t) = (- 62135596800 \<le> t \<and> t < 253402300800)"
| "is_timestamp _ = False"

fun is_kelvin :: "json \<Rightarrow> bool" where
  "is_kelvin JNull = True"
| "is_kelvin (JNum k) = float_range k"
| "is_kelvin _ = False"

fun is_main :: "json \<Rightarrow> bool" where
  "is_main (JObj m) = (absent_or is_kelvin (map_of m ''temp'') \<and>
                       absent_or is_kelvin (map_of m ''feels_like''))"
| "is_main _ = False"

fun is_weather :: "json \<Rightarrow> bool" where
  "is_weather (JArr []) = True"
| "is_weather (JArr (x # xs)) = is_object x"
| "is_weather _ = False"

fun provider_shaped :: "json \<Rightarrow> bool" where
  "provider_shaped (JObj d) =
     (absent_or is_timestamp (map_of d ''dt'') \<and>
      absent_or is_main (map_of d ''main'') \<and>
      absent_or is_object (map_of d ''wind'') \<and>
      absent_or is_object (map_of d ''coord'') \<and>
      absent_or is_weather (map_of d ''weather''))"
| "provider_shaped _ = False"


fun json_member :: "json \<Rightarrow> string \<Rightarrow> json option" where
  "json_member (JObj d) k = map_of d k"
| "json_member _ k = None"

definition nested :: "json \<Rightarrow> string \<Rightarrow> string \<Rightarrow> json option" where
  "nested raw k f = (case json_member raw k of None \<Rightarrow> None | Some x \<Rightarrow> json_member x f)"

text \<open>The wall clock of a running pipeline lies between the epoch and the year 9999.\<close>

definition clock_ok :: "real \<Rightarrow> bool" where
  "clock_ok now = (0 \<le> now \<and> now < 253402300800)"

text \<open>The value of a column read with \<^verbatim>\<open>.get\<close>: \<^verbatim>\<open>None\<close> when there is nothing to read.\<close>

fun or_null :: "json option \<Rightarrow> json" where
  "or_null None = JNull"
| "or_null (Some v) = v"

fun celsius_of :: "json \<Rightarrow> real option" where
  "celsius_of (JNum k) = Some (k - 273.15)"
| "celsius_of _ = None"

text \<open>\<open>first_weather raw f\<close>: what \<^verbatim>\<open>raw["weather"][0][f]\<close> holds, if the payload has it.\<close>

definition first_weather :: "json \<Rightarrow> string \<Rightarrow> json option" where
  "first_weather raw f =
     (case json_member raw ''weather'' of
        Some (JArr (x # xs)) \<Rightarrow> json_member x f
      | _ \<Rightarrow> None)"

section \<open>weather\_api.py: the client and the retry loop\<close>

text \<open>
  The outside world of one pipeline run: the wall clock, the number of HTTP requests
  issued so far, and the trace of the effects in the order they happened. Log output is
  not part of the model.
\<close>

datatype event = Fetch string | Sleep int

record world =
  clock :: real
  requests :: nat
  trace :: "event list"

text \<open>
  What \<^verbatim>\<open>requests.get\<close>, \<^verbatim>\<open>raise_for_status\<close> and \<^verbatim>\<open>response.json\<close> make of one
  request: a network error or timeout, a non-success status, a body that is not JSON, a
  body on which the decoder raises something that is neither a \<^verbatim>\<open>RequestException\<close> nor
  a \<^verbatim>\<open>JSONDecodeError\<close> (\<^verbatim>\<open>RecursionError\<close> for a body nested too deeply), or the
  decoded body. The network answers the \<open>n\<close>-th request of the run for a location.
\<close>

datatype response =
  ConnectionFailed
| HttpStatusError
| Undecodable
| DecoderCrashed
| Body json

type_synonym network = "nat \<Rightarrow> string \<Rightarrow> response"

text \<open>
  \<open>fetch_weather_data\<close>: both \<^verbatim>\<open>except\<close> clauses raise \<^verbatim>\<open>WeatherAPIError\<close>; any other
  exception leaves the method as it is. The query parameters are a function of the
  location, so the request is identified by it.
\<close>

definition fetch_weather_data :: "network \<Rightarrow> string \<Rightarrow> world \<Rightarrow> (exc + json) \<times> world" where
  "fetch_weather_data net loc w =
     (let w' = w\<lparr>requests := Suc (requests w), trace := trace w @ [Fetch loc]\<rparr>
      in case net (requests w) loc of
           Body j \<Rightarrow> (Inr j, w')
         | ConnectionFailed \<Rightarrow> (Inl WeatherAPIError, w')
         | HttpStatusError \<Rightarrow> (Inl WeatherAPIError, w')
         | Undecodable \<Rightarrow> (Inl WeatherAPIError, w')
         | DecoderCrashed \<Rightarrow> (Inl RecursionError, w'))"

text \<open>The \<^verbatim>\<open>api_client\<close> argument of \<open>fetch_and_transform_location\<close>: any object with
  the three methods; \<open>WeatherAPIClient\<close> is the one of the repository.\<close>

record api_client =
  fetch :: "string \<Rightarrow> world \<Rightarrow> (exc + json) \<times> world"
  transform :: "string \<Rightarrow> json \<Rightarrow> real \<Rightarrow> exc + observation"
  validate :: "observation \<Rightarrow> bool"

definition WeatherAPIClient :: "network \<Rightarrow> api_client" where
  "WeatherAPIClient net =
     \<lparr> fetch = fetch_weather_data net,
       transform = transform_weather_data,
       validate = validate_weather_data \<rparr>"

text \<open>The values of config.py that the pipeline reads.\<close>

record config =
  MAX_RETRIES :: int
  RETRY_DELAY_SECONDS :: int
  LOCATIONS :: "string list"

text \<open>\<^verbatim>\<open>time.sleep(secs)\<close> raises \<^verbatim>\<open>ValueError\<close> for a negative length.\<close>

definition py_sleep :: "int \<Rightarrow> world \<Rightarrow> exc + world" where
  "py_sleep secs w =
     (if secs < 0 then Inl ValueError
      else Inr (w\<lparr>clock := clock w + of_int secs, trace := trace w @ [Sleep secs]\<rparr>))"

text \<open>The body of the \<^verbatim>\<open>try\<close> block of one attempt: fetch, transform, validate.\<close>

definition try_attempt :: "api_client \<Rightarrow> string \<Rightarrow> world \<Rightarrow> (exc + observation option) \<times> world" where
  "try_attempt c loc w =
     (case fetch c loc w of
        (Inl e, w1) \<Rightarrow> (Inl e, w1)
      | (Inr raw_data, w1) \<Rightarrow>
          (case transform c loc raw_data (clock w1) of
             Inl e \<Rightarrow> (Inl e, w1)
           | Inr obs \<Rightarrow> (Inr (if validate c obs then Some obs else None), w1)))"

text \<open>
  \<^verbatim>\<open>for attempt in range(Config.MAX_RETRIES)\<close> over the attempts still to make. A
  \<^verbatim>\<open>WeatherAPIError\<close> is retried after the delay unless the attempt is the last one; any
  other \<^verbatim>\<open>Exception\<close> returns \<^verbatim>\<open>None\<close>; an exception raised by \<^verbatim>\<open>time.sleep\<close> inside
  the handler, or one that is no \<^verbatim>\<open>Exception\<close>, leaves the function.
\<close>

fun attempt_loop ::
  "config \<Rightarrow> api_client \<Rightarrow> string \<Rightarrow> int list \<Rightarrow> world \<Rightarrow> (exc + observation option) \<times> world" where
  "attempt_loop cfg c loc [] w = (Inr None, w)"
| "attempt_loop cfg c loc (attempt # rest) w =
     (case try_attempt c loc w of
        (Inr result, w1) \<Rightarrow> (Inr result, w1)
      | (Inl e, w1) \<Rightarrow>
          if e = WeatherAPIError then
            (if attempt < MAX_RETRIES cfg - 1 then
               (case py_sleep (RETRY_DELAY_SECONDS cfg) w1 of
                  Inl e' \<Rightarrow> (Inl e', w1)
                | Inr w2 \<Rightarrow> attempt_loop cfg c loc rest w2)
             else (Inr None, w1))
          else if is_Exception e then (Inr None, w1)
          else (Inl e, w1))"

definition fetch_and_transform_location ::
  "config \<Rightarrow> string \<Rightarrow> api_client \<Rightarrow> world \<Rightarrow> (exc + observation option) \<times> world" where
  "fetch_and_transform_location cfg loc c w =
     attempt_loop cfg c loc [0 .. MAX_RETRIES cfg - 1] w"

section \<open>pipeline.py: the orchestrator\<close>

text \<open>
  \<^verbatim>\<open>str.strip()\<close>. A character of the model is a code point below 256; the whitespace
  among them, as \<^verbatim>\<open>str.isspace\<close> has it, is the twelve characters below. Text with
  other code points is outside the model.
\<close>

definition is_space :: "char \<Rightarrow> bool" where
  "is_space ch = (ch \<in> set [CHR 0x09, CHR 0x0A, CHR 0x0B, CHR 0x0C, CHR 0x0D,
                            CHR 0x1C, CHR 0x1D, CHR 0x1E, CHR 0x1F, CHR 0x20,
                            CHR 0x85, CHR 0xA0])"

definition py_strip :: "string \<Rightarrow> string" where
  "py_strip s = rev (dropWhile is_space (rev (dropWhile is_space s)))"

text \<open>
  The loop of \<open>_process_locations\<close> with its accumulator \<^verbatim>\<open>observations\<close>. The
  \<^verbatim>\<open>except Exception\<close> of the loop body continues with the next location.
\<close>

fun process_loop ::
  "config \<Rightarrow> api_client \<Rightarrow> string list \<Rightarrow> observation list \<Rightarrow> world
     \<Rightarrow> (exc + observation list) \<times> world" where
  "process_loop cfg c [] observations w = (Inr observations, w)"
| "process_loop cfg c (entry # entries) observations w =
     (let loc = py_strip entry in
      if loc = [] then process_loop cfg c entries observations w
      else
        (case fetch_and_transform_location cfg loc c w of
           (Inr (Some obs), w1) \<Rightarrow> process_loop cfg c entries (observations @ [obs]) w1
         | (Inr None, w1) \<Rightarrow> process_loop cfg c entries observations w1
         | (Inl e, w1) \<Rightarrow>
             if is_Exception e then process_loop cfg c entries observations w1
             else (Inl e, w1)))"

definition process_locations ::
  "config \<Rightarrow> api_client \<Rightarrow> world \<Rightarrow> (exc + observation list) \<times> world" where
  "process_locations cfg c w = process_loop cfg c (LOCATIONS cfg) [] w"

text \<open>
  Partial success, as the specification words it: every configured location is processed
  on its own, a location that fails contributes nothing, and the cycle ends with the
  observations of the others.
\<close>

fun partial_success ::
  "config \<Rightarrow> api_client \<Rightarrow> string list \<Rightarrow> world \<Rightarrow> observation list \<times> world" where
  "partial_success cfg c [] w = ([], w)"
| "partial_success cfg c (entry # entries) w =
     (if py_strip entry = [] then partial_success cfg c entries w
      else
        (case fetch_and_transform_location cfg (py_strip entry) c w of
           (outcome, w1) \<Rightarrow>
             (case partial_success cfg c entries w1 of
                (later, w2) \<Rightarrow>
                  ((case outcome of Inr (Some obs) \<Rightarrow> [obs] | _ \<Rightarrow> []) @ later, w2))))"

section \<open>models.py: the observation store\<close>

text \<open>
  The table, oldest row first, and the observations handed to
  \<open>save_weather_observation\<close> so far. Whether the session can be opened and whether the
  commit goes through is decided by the database, for the \<open>n\<close>-th call.
\<close>

record store =
  rows :: "observation list"
  offered :: "observation list"

datatype save_outcome =
  Committed
| RolledBack
| SessionFailed exc

type_synonym database = "nat \<Rightarrow> observation \<Rightarrow> save_outcome"

text \<open>
  \<open>save_weather_observation\<close>: \<^verbatim>\<open>get_session\<close> is outside the \<^verbatim>\<open>try\<close>, so its failure
  leaves the method; a failure of \<^verbatim>\<open>add\<close> or \<^verbatim>\<open>commit\<close> rolls back and returns \<^verbatim>\<open>False\<close>.
  A committed row gets the next key of the autoincrement column.
\<close>

definition save_weather_observation ::
  "database \<Rightarrow> observation \<Rightarrow> store \<Rightarrow> (exc + bool) \<times> store" where
  "save_weather_observation db obs s =
     (let s' = s\<lparr>offered := offered s @ [obs]\<rparr>
      in case db (length (offered s)) obs of
           SessionFailed e \<Rightarrow> (Inl e, s')
         | RolledBack \<Rightarrow> (Inr False, s')
         | Committed \<Rightarrow>
             (Inr True, s'\<lparr>rows := rows s @ [obs\<lparr>obs_id := Some (Suc (length (rows s)))\<rparr>]\<rparr>))"

text \<open>The loop of \<open>_save_observations\<close> with its counter \<^verbatim>\<open>saved_count\<close>.\<close>

fun save_loop ::
  "database \<Rightarrow> observation list \<Rightarrow> nat \<Rightarrow> store \<Rightarrow> (exc + nat) \<times> store" where
  "save_loop db [] saved_count s = (Inr saved_count, s)"
| "save_loop db (obs # rest) saved_count s =
     (case save_weather_observation db obs s of
        (Inr True, s1) \<Rightarrow> save_loop db rest (saved_count + 1) s1
      | (Inr False, s1) \<Rightarrow> save_loop db rest saved_count s1
      | (Inl e, s1) \<Rightarrow>
          if is_Exception e then save_loop db rest saved_count s1
          else (Inl e, s1))"

definition save_observations ::
  "database \<Rightarrow> observation list \<Rightarrow> store \<Rightarrow> (exc + nat) \<times> store" where
  "save_observations db observations s = save_loop db observations 0 s"

text \<open>
  The line that \<open>_process_locations\<close> logs before its loop,
  \<^verbatim>\<open>f"Processing {len(Config.LOCATIONS)} locations"\<close>: the number it prints.
\<close>

definition locations_announced :: "config \<Rightarrow> nat" where
  "locations_announced cfg = length (LOCATIONS cfg)"

text \<open>
  \<open>run_etl\<close>: process, save, and report. The summary holds the two numbers of the line
  \<^verbatim>\<open>"Processed {len(observations)} locations, saved {saved_count} records"\<close>; an
  \<^verbatim>\<open>Exception\<close> on the way returns \<^verbatim>\<open>False\<close> without that line. The optional push to S3
  contains its own failures and its result is not used; it is not modelled.
\<close>

record cycle_summary =
  processed :: nat
  saved :: nat

definition run_etl ::
  "config \<Rightarrow> api_client \<Rightarrow> database \<Rightarrow> world \<Rightarrow> store
     \<Rightarrow> (exc + bool \<times> cycle_summary option) \<times> world \<times> store" where
  "run_etl cfg c db w s =
     (case process_locations cfg c w of
        (Inl e, w1) \<Rightarrow> (if is_Exception e then Inr (False, None) else Inl e, w1, s)
      | (Inr observations, w1) \<Rightarrow>
          (case save_observations db observations s of
             (Inl e, s1) \<Rightarrow> (if is_Exception e then Inr (False, None) else Inl e, w1, s1)
           | (Inr saved_count, s1) \<Rightarrow>
               (Inr (True, Some \<lparr>processed = length observations, saved = saved_count\<rparr>),
                w1, s1)))"

section \<open>api.py and models.py: the queries\<close>

text \<open>
  The \<^verbatim>\<open>LIKE\<close> operator of SQLite, the engine of \<open>get_database_url\<close>: \<^verbatim>\<open>%\<close> in the
  pattern stands for any run of characters, \<^verbatim>\<open>_\<close> for any one character, and ASCII
  letters match without regard to case.
\<close>

definition ascii_lower :: "char \<Rightarrow> char" where
  "ascii_lower ch =
     (if 65 \<le> (of_char ch :: nat) \<and> (of_char ch :: nat) \<le> 90
      then char_of ((of_char ch :: nat) + 32) else ch)"

fun like_match :: "string \<Rightarrow> string \<Rightarrow> bool" where
  "like_match [] s = (s = [])"
| "like_match (p # ps) [] = (p = CHR ''%'' \<and> like_match ps [])"
| "like_match (p # ps) (ch # s) =
     (if p = CHR ''%'' then like_match ps (ch # s) \<or> like_match (p # ps) s
      else (p = CHR ''_'' \<or> ascii_lower p = ascii_lower ch) \<and> like_match ps s)"

text \<open>
  \<^verbatim>\<open>order_by(fetched_at_utc.desc()).first()\<close>: a row with the greatest \<open>fetched_at_utc\<close>,
  if there is a row. SQL leaves open which of several newest rows comes first; the model
  takes the one stored first.
\<close>

fun newest_first :: "observation list \<Rightarrow> observation option" where
  "newest_first [] = None"
| "newest_first (r # rs) =
     (case newest_first rs of
        None \<Rightarrow> Some r
      | Some b \<Rightarrow> if fetched_at_utc r < fetched_at_utc b then Some b else Some r)"

text \<open>
  The query of the handler \<open>get_weather_by_location\<close> of api.py:
  \<^verbatim>\<open>filter(location.like(f"{location}%"))\<close>, newest first, first row. \<open>None\<close> is the
  404 answer; the JSON shaping of the row is not modelled.
\<close>

definition get_weather_by_location :: "observation list \<Rightarrow> string \<Rightarrow> observation option" where
  "get_weather_by_location table loc =
     newest_first (filter (\<lambda>r. like_match (loc @ ''%'') (location r)) table)"

text \<open>\<open>get_latest_observations\<close> of models.py: the \<open>limit\<close> newest rows of the whole
  table, whatever their location. A negative \<^verbatim>\<open>LIMIT\<close> is no limit in SQLite.\<close>

fun insert_desc :: "observation \<Rightarrow> observation list \<Rightarrow> observation list" where
  "insert_desc r [] = [r]"
| "insert_desc r (b # bs) =
     (if fetched_at_utc b < fetched_at_utc r then r # b # bs else b # insert_desc r bs)"

definition order_by_fetched_desc :: "observation list \<Rightarrow> observation list" where
  "order_by_fetched_desc table = foldr insert_desc table []"

definition get_latest_observations :: "observation list \<Rightarrow> int \<Rightarrow> observation list" where
  "get_latest_observations table limit =
     (if limit < 0 then order_by_fetched_desc table
      else take (nat limit) (order_by_fetched_desc table))"

text \<open>\<^verbatim>\<open>MAX(fetched_at_utc)\<close> of a group; a group of \<^verbatim>\<open>GROUP BY\<close> is never empty.\<close>

fun sql_max :: "real list \<Rightarrow> real option" where
  "sql_max [] = None"
| "sql_max (x # xs) = Some (fold max xs x)"

text \<open>
  \<open>get_stale_locations\<close>: one group per location (SQL leaves their order open), kept
  when its newest fetch is before
  \<^verbatim>\<open>datetime('now', '-N minutes')\<close>. The threshold is formatted into the SQL text: for a
  negative \<open>N\<close> the modifier reads \<^verbatim>\<open>--N minutes\<close>, which SQLite does not accept, the
  bound is \<^verbatim>\<open>NULL\<close> and no group passes \<^verbatim>\<open>HAVING\<close>. Instants are compared as instants.
\<close>

definition get_stale_locations :: "observation list \<Rightarrow> real \<Rightarrow> int \<Rightarrow> (string \<times> real) list" where
  "get_stale_locations table now minutes_threshold =
     (if minutes_threshold < 0 then []
      else
        concat (map (\<lambda>loc.
          case sql_max (map fetched_at_utc (filter (\<lambda>r. location r = loc) table)) of
            None \<Rightarrow> []
          | Some latest_fetch \<Rightarrow>
              if latest_fetch < now - 60 * of_int minutes_threshold
              then [(loc, latest_fetch)] else [])
          (remdups (map location table))))"

section \<open>scheduler.py: the scheduling loop\<close>

text \<open>
  The loop runs on its own thread; what reaches it from outside in one iteration is
  whether the \<^verbatim>\<open>schedule\<close> library finds the job due, what \<open>run_pipeline\<close> does when it
  is called, and whether \<open>stop_scheduler\<close> has cleared \<^verbatim>\<open>_running\<close> by the time the
  \<^verbatim>\<open>while\<close> condition is read again.
\<close>

record tick =
  due :: bool
  pipeline_outcome :: "exc + bool"
  stop_requested :: bool

datatype log_entry = Info string | Warning string | Error string

record scheduler =
  running :: bool
  log :: "log_entry list"
  cycles_started :: nat
  slept :: nat

text \<open>\<open>_run_etl_job\<close>: \<^verbatim>\<open>except Exception\<close> logs and returns; what is no
  \<^verbatim>\<open>Exception\<close> leaves the method.\<close>

definition run_etl_job :: "exc + bool \<Rightarrow> scheduler \<Rightarrow> exc option \<times> scheduler" where
  "run_etl_job outcome s =
     (let s1 = s\<lparr>log := log s @ [Info ''Starting scheduled ETL job''],
                 cycles_started := Suc (cycles_started s)\<rparr>
      in case outcome of
           Inr success \<Rightarrow>
             (None, s1\<lparr>log := log s1 @
                      [if success then Info ''Scheduled ETL job completed successfully''
                       else Error ''Scheduled ETL job failed'']\<rparr>)
         | Inl e \<Rightarrow>
             if is_Exception e
             then (None, s1\<lparr>log := log s1 @ [Error ''Error in scheduled ETL job'']\<rparr>)
             else (Some e, s1))"

text \<open>\<^verbatim>\<open>schedule.run_pending()\<close> calls the job when it is due and lets its exceptions
  through.\<close>

definition run_pending :: "tick \<Rightarrow> scheduler \<Rightarrow> exc option \<times> scheduler" where
  "run_pending t s = (if due t then run_etl_job (pipeline_outcome t) s else (None, s))"

definition sleep60 :: "scheduler \<Rightarrow> scheduler" where
  "sleep60 s = s\<lparr>slept := slept s + 60\<rparr>"

text \<open>The flag \<^verbatim>\<open>_running\<close> as the next \<^verbatim>\<open>while\<close> test reads it.\<close>

definition observe_stop :: "tick \<Rightarrow> scheduler \<Rightarrow> scheduler" where
  "observe_stop t s = s\<lparr>running := (running s \<and> \<not> stop_requested t)\<rparr>"

text \<open>
  \<open>_run_scheduler\<close>, with the \<^verbatim>\<open>schedule\<close> library installed, over the iterations that
  the environment describes; the list ends where the observation of the loop ends.
  \<^verbatim>\<open>KeyboardInterrupt\<close> stops the scheduler and
  leaves the loop; any other \<^verbatim>\<open>Exception\<close> is logged and the loop goes on after the
  sleep; what is neither ends the thread.
\<close>

fun run_scheduler_loop :: "tick list \<Rightarrow> scheduler \<Rightarrow> scheduler" where
  "run_scheduler_loop [] s = s"
| "run_scheduler_loop (t # ts) s =
     (if \<not> running s then s
      else
        (case run_pending t s of
           (None, s1) \<Rightarrow> run_scheduler_loop ts (observe_stop t (sleep60 s1))
         | (Some e, s1) \<Rightarrow>
             if e = KeyboardInterrupt
             then s1\<lparr>running := False,
                     log := log s1 @ [Info ''Scheduler interrupted by user'']\<rparr>
             else if is_Exception e
             then run_scheduler_loop ts
                    (observe_stop t
                       (sleep60 (s1\<lparr>log := log s1 @ [Error ''Error in scheduler loop'']\<rparr>)))
             else s1))"

section \<open>Reference behaviour and sample inputs\<close>

text \<open>The effects of \<open>k\<close> attempts with the fixed delay between consecutive attempts
  and none after the last.\<close>

fun retry_trace :: "string \<Rightarrow> int \<Rightarrow> nat \<Rightarrow> event list" where
  "retry_trace loc d 0 = []"
| "retry_trace loc d (Suc 0) = [Fetch loc]"
| "retry_trace loc d (Suc (Suc k)) = Fetch loc # Sleep d # retry_trace loc d (Suc k)"

text \<open>The world after \<open>k\<close> failed attempts, each followed by the delay.\<close>

definition after_failures :: "config \<Rightarrow> string \<Rightarrow> nat \<Rightarrow> world \<Rightarrow> world" where
  "after_failures cfg loc k w =
     w\<lparr>clock := clock w + of_int (RETRY_DELAY_SECONDS cfg) * of_nat k,
       requests := requests w + k,
       trace := trace w @ concat (replicate k [Fetch loc, Sleep (RETRY_DELAY_SECONDS cfg)])\<rparr>"

text \<open>The defaults of config.py, a world at its start, and networks that fail on
  every request or answer every request with the payload of the repository's test.\<close>

definition default_config :: config where
  "default_config =
     \<lparr> MAX_RETRIES = 3, RETRY_DELAY_SECONDS = 5,
       LOCATIONS = [''Colombo,Sri Lanka'', ''Kandy,Sri Lanka'', ''Anuradhapura,Sri Lanka'',
                    ''London,UK''] \<rparr>"

definition initial_world :: world where
  "initial_world = \<lparr> clock = 1700000000, requests = 0, trace = [] \<rparr>"

definition malformed_network :: network where
  "malformed_network n loc = Undecodable"

definition unreachable_network :: network where
  "unreachable_network n loc = ConnectionFailed"

text \<open>A client with another validation hook, as a subclass overriding
  \<open>validate_weather_data\<close>.\<close>

definition with_validate :: "api_client \<Rightarrow> (observation \<Rightarrow> bool) \<Rightarrow> api_client" where
  "with_validate c v = c\<lparr>validate := v\<rparr>"

definition sample_payload :: json where
  "sample_payload =
     JObj [(''dt'', JNum 1640995200),
           (''coord'', JObj [(''lat'', JNum 40.7128), (''lon'', JNum (- 74.0060))]),
           (''main'', JObj [(''temp'', JNum 293.15), (''feels_like'', JNum 290.15),
                            (''humidity'', JNum 65), (''pressure'', JNum 1013)]),
           (''wind'', JObj [(''speed'', JNum 3.5), (''deg'', JNum 180)]),
           (''weather'', JArr [JObj [(''main'', JStr ''Clear''),
                                     (''description'', JStr ''clear sky'')]])]"



text \<open>Networks that answer the first request with a non-success status and the
  second with the sample payload, or with a body too deep for the decoder.\<close>

definition recovering_network :: network where
  "recovering_network n loc = (if n = 0 then HttpStatusError else Body sample_payload)"

definition crashing_network :: network where
  "crashing_network n loc = (if n = 0 then HttpStatusError else DecoderCrashed)"

definition steady_network :: network where
  "steady_network n loc = Body sample_payload"

definition reject_all :: "observation \<Rightarrow> bool" where
  "reject_all obs = False"

text \<open>The \<open>n\<close>-th request for a location fails with a \<^verbatim>\<open>WeatherAPIError\<close>.\<close>

definition fetch_fails :: "network \<Rightarrow> string \<Rightarrow> nat \<Rightarrow> bool" where
  "fetch_fails net loc n =
     (net n loc = ConnectionFailed \<or> net n loc = HttpStatusError \<or> net n loc = Undecodable)"

text \<open>The end-to-end scenario of the specification: one location always unreachable,
  the other answered; a blank entry between them.\<close>

definition scenario_config :: config where
  "scenario_config =
     \<lparr> MAX_RETRIES = 2, RETRY_DELAY_SECONDS = 0,
       LOCATIONS = [''Kandy,Sri Lanka'', '' '', ''Colombo,Sri Lanka''] \<rparr>"

definition scenario_network :: network where
  "scenario_network n loc =
     (if loc = ''Kandy,Sri Lanka'' then ConnectionFailed else Body sample_payload)"


text \<open>A stored observation, an empty table, and a database whose first commit fails.\<close>

definition sample_observation :: observation where
  "sample_observation =
     \<lparr> obs_id = None, location = ''Colombo,Sri Lanka'', lat = JNum 6.9271, lon = JNum 79.8612,
       timestamp_utc = 1640995200, temp_c = Some 20, temp_k = JNum 293.15,
       feels_like_c = Some 17, humidity = JNum 65, pressure = JNum 1013,
       wind_speed = JNum 3.5, wind_deg = JNum 180, weather_main = JStr ''Clear'',
       weather_description = JStr ''clear sky'', raw_json = sample_payload,
       fetched_at_utc = 1700000000 \<rparr>"

definition empty_store :: store where
  "empty_store = \<lparr> rows = [], offered = [] \<rparr>"

definition flaky_database :: database where
  "flaky_database n obs = (if n = 0 then RolledBack else Committed)"

text \<open>What one iteration of the scheduling loop writes to the log when the job's
  exception is contained.\<close>

definition tick_log :: "tick \<Rightarrow> log_entry list" where
  "tick_log t =
     (if due t then
        [Info ''Starting scheduled ETL job'',
         (case pipeline_outcome t of
            Inr success \<Rightarrow>
              if success then Info ''Scheduled ETL job completed successfully''
              else Error ''Scheduled ETL job failed''
          | Inl e \<Rightarrow> Error ''Error in scheduled ETL job'')]
      else [])"

text \<open>A scheduler before \<open>start_scheduler\<close>, and iterations in which the cycle raises,
  succeeds, or is interrupted.\<close>

definition stopped_scheduler :: scheduler where
  "stopped_scheduler = \<lparr> running = False, log = [], cycles_started = 0, slept = 0 \<rparr>"

definition failing_tick :: tick where
  "failing_tick = \<lparr> due = True, pipeline_outcome = Inl RuntimeError, stop_requested = False \<rparr>"

definition passing_tick :: tick where
  "passing_tick = \<lparr> due = True, pipeline_outcome = Inr True, stop_requested = False \<rparr>"

definition interrupted_tick :: tick where
  "interrupted_tick =
     \<lparr> due = True, pipeline_outcome = Inl KeyboardInterrupt, stop_requested = False \<rparr>"

text \<open>A table with three fetches of one location and one of another.\<close>

definition colombo_history :: "observation list" where
  "colombo_history =
     [sample_observation\<lparr>fetched_at_utc := 1700000000\<rparr>,
      sample_observation\<lparr>fetched_at_utc := 1700007200\<rparr>,
      sample_observation\<lparr>location := ''Kandy,Sri Lanka'', fetched_at_utc := 1700009000\<rparr>,
      sample_observation\<lparr>fetched_at_utc := 1700003600\<rparr>]"


section \<open>Properties of transform\_weather\_data\<close>

lemma float_range_small [simp]: "\<bar>x\<bar> \<le> 1000000 \<Longrightarrow> float_range x"
proof -
  have "(1000000::real) < 2 ^ 1024 - 2 ^ 970" by simp
  then show "\<bar>x\<bar> \<le> 1000000 \<Longrightarrow> float_range x" unfolding float_range_def by linarith
qed

lemma py_int_range:
  "clock_ok now \<Longrightarrow> - 62135596800 \<le> py_int now \<and> py_int now < 253402300800"
  unfolding clock_ok_def py_int_def by (auto; linarith)

lemma py_get_object: "py_get (JObj m) f = Inr (or_null (map_of m f))"
  by (cases "map_of m f") (simp_all add: py_get_def)

lemma shaped_dt:
  assumes "absent_or is_timestamp (map_of d ''dt'')" "clock_ok now"
  shows "\<exists>v t. py_get_default (JObj d) ''dt'' (JNum (py_int now)) = Inr v \<and>
               fromtimestamp v = Inr t"
proof (cases "map_of d ''dt''")
  case None
  then show ?thesis using py_int_range[OF assms(2)] by simp
next
  case (Some v)
  then show ?thesis using assms(1) by (cases v) auto
qed

lemma shaped_obj:
  assumes "absent_or is_object (map_of d k)"
  shows "\<exists>m. py_get_default (JObj d) k (JObj []) = Inr (JObj m) \<and>
             (\<forall>f. map_of m f = nested (JObj d) k f)"
proof (cases "map_of d k")
  case None
  then show ?thesis by (simp add: nested_def)
next
  case (Some v)
  then show ?thesis using assms by (cases v) (auto simp: nested_def)
qed

lemma is_main_object: "absent_or is_main x \<Longrightarrow> absent_or is_object x"
proof (cases x)
  case (Some v)
  then show "absent_or is_main x \<Longrightarrow> ?thesis" by (cases v) auto
qed simp

lemma shaped_main_kelvin:
  assumes "absent_or is_main (map_of d ''main'')" "f = ''temp'' \<or> f = ''feels_like''"
  shows "kelvin_to_celsius (or_null (nested (JObj d) ''main'' f)) =
           Inr (celsius_of (or_null (nested (JObj d) ''main'' f)))"
proof (cases "map_of d ''main''")
  case None
  then show ?thesis by (simp add: nested_def)
next
  case (Some v)
  then obtain m where v: "v = JObj m" using assms(1) by (cases v) auto
  have k: "absent_or is_kelvin (map_of m f)" using assms Some v by auto
  show ?thesis
  proof (cases "map_of m f")
    case None
    then show ?thesis using Some v by (simp add: nested_def)
  next
    case (Some u)
    then show ?thesis using \<open>map_of d ''main'' = Some v\<close> v k
      by (cases u) (auto simp: nested_def)
  qed
qed

lemma shaped_weather:
  assumes "absent_or is_weather (map_of d ''weather'')"
  shows "\<exists>w m. py_get (JObj d) ''weather'' = Inr w \<and>
             py_index0 (if py_truthy w then w else JArr [JObj []]) = Inr (JObj m) \<and>
             (\<forall>f. map_of m f = first_weather (JObj d) f)"
proof (cases "map_of d ''weather''")
  case None
  then show ?thesis by (simp add: py_get_def first_weather_def)
next
  case (Some v)
  show ?thesis
  proof (cases v)
    case (JArr xs)
    show ?thesis
    proof (cases xs)
      case Nil
      then show ?thesis using Some JArr by (simp add: py_get_def first_weather_def)
    next
      case (Cons x ys)
      then show ?thesis using Some JArr assms
        by (cases x) (auto simp: py_get_def first_weather_def)
    qed
  qed (use Some assms in auto)
qed

text \<open>On a payload of the provider's shape the transformation returns, and each column
  is what the payload holds at its place, or \<^verbatim>\<open>None\<close>.\<close>

lemma transform_shaped:
  assumes "provider_shaped raw" "clock_ok now"
  shows "\<exists>obs. transform_weather_data loc raw now = Inr obs \<and>
           location obs = loc \<and> fetched_at_utc obs = now \<and> raw_json obs = raw \<and>
           temp_k obs = or_null (nested raw ''main'' ''temp'') \<and>
           temp_c obs = celsius_of (or_null (nested raw ''main'' ''temp'')) \<and>
           feels_like_c obs = celsius_of (or_null (nested raw ''main'' ''feels_like'')) \<and>
           humidity obs = or_null (nested raw ''main'' ''humidity'') \<and>
           pressure obs = or_null (nested raw ''main'' ''pressure'') \<and>
           wind_speed obs = or_null (nested raw ''wind'' ''speed'') \<and>
           wind_deg obs = or_null (nested raw ''wind'' ''deg'') \<and>
           lat obs = or_null (nested raw ''coord'' ''lat'') \<and>
           lon obs = or_null (nested raw ''coord'' ''lon'') \<and>
           weather_main obs = or_null (first_weather raw ''main'') \<and>
           weather_description obs = or_null (first_weather raw ''description'')"
proof -
  obtain d where raw: "raw = JObj d" using assms(1) by (cases raw) auto
  have sh: "absent_or is_timestamp (map_of d ''dt'')" "absent_or is_main (map_of d ''main'')"
    "absent_or is_object (map_of d ''wind'')" "absent_or is_object (map_of d ''coord'')"
    "absent_or is_weather (map_of d ''weather'')"
    using assms(1) raw by simp_all
  obtain v t where dt: "py_get_default (JObj d) ''dt'' (JNum (py_int now)) = Inr v"
      "fromtimestamp v = Inr t"
    using shaped_dt[OF sh(1) assms(2)] by blast
  obtain m where main: "py_get_default (JObj d) ''main'' (JObj []) = Inr (JObj m)"
      "\<And>f. map_of m f = nested (JObj d) ''main'' f"
    using shaped_obj[OF is_main_object[OF sh(2)]] by blast
  obtain wi where wind: "py_get_default (JObj d) ''wind'' (JObj []) = Inr (JObj wi)"
      "\<And>f. map_of wi f = nested (JObj d) ''wind'' f"
    using shaped_obj[OF sh(3)] by blast
  obtain co where coord: "py_get_default (JObj d) ''coord'' (JObj []) = Inr (JObj co)"
      "\<And>f. map_of co f = nested (JObj d) ''coord'' f"
    using shaped_obj[OF sh(4)] by blast
  obtain w we where weather: "py_get (JObj d) ''weather'' = Inr w"
      "py_index0 (if py_truthy w then w else JArr [JObj []]) = Inr (JObj we)"
      "\<And>f. map_of we f = first_weather (JObj d) f"
    using shaped_weather[OF sh(5)] by blast
  note tc = shaped_main_kelvin[OF sh(2), of "''temp''", simplified]
  note fc = shaped_main_kelvin[OF sh(2), of "''feels_like''", simplified]
  have w: "w = or_null (map_of d ''weather'')"
    using weather(1) by (simp add: py_get_object)
  note idx = weather(2)[unfolded w]
  show ?thesis
    unfolding transform_weather_data_def raw
    by (simp add: dt main wind coord idx weather(3) py_get_object tc fc
             del: py_get_default.simps)
qed

text \<open>Whenever the transformation returns, each column was read where the source reads
  it.\<close>

lemma exc_bind_InrE:
  assumes "exc_bind m f = Inr y"
  obtains x where "m = Inr x" "f x = Inr y"
  using assms by (cases m) auto

lemma transform_InrD:
  assumes "transform_weather_data loc raw now = Inr obs"
  shows "\<exists>main wind coord w weather.
           py_get_default raw ''main'' (JObj []) = Inr main \<and>
           py_get_default raw ''wind'' (JObj []) = Inr wind \<and>
           py_get_default raw ''coord'' (JObj []) = Inr coord \<and>
           py_get raw ''weather'' = Inr w \<and>
           py_index0 (if py_truthy w then w else JArr [JObj []]) = Inr weather \<and>
           py_get main ''temp'' = Inr (temp_k obs) \<and>
           kelvin_to_celsius (temp_k obs) = Inr (temp_c obs) \<and>
           (\<exists>fk. py_get main ''feels_like'' = Inr fk \<and>
                 kelvin_to_celsius fk = Inr (feels_like_c obs)) \<and>
           py_get main ''humidity'' = Inr (humidity obs) \<and>
           py_get main ''pressure'' = Inr (pressure obs) \<and>
           py_get wind ''speed'' = Inr (wind_speed obs) \<and>
           py_get wind ''deg'' = Inr (wind_deg obs) \<and>
           py_get coord ''lat'' = Inr (lat obs) \<and>
           py_get coord ''lon'' = Inr (lon obs) \<and>
           py_get weather ''main'' = Inr (weather_main obs) \<and>
           py_get weather ''description'' = Inr (weather_description obs)"
  using assms unfolding transform_weather_data_def
  by (elim exc_bind_InrE) auto

lemma read_nested:
  assumes "py_get_default raw k (JObj []) = Inr x" "py_get x f = Inr v"
  shows "v = or_null (nested raw k f)"
proof -
  obtain d where raw: "raw = JObj d" using assms(1) by (cases raw) auto
  show ?thesis
  proof (cases "map_of d k")
    case None
    then show ?thesis using assms raw by (auto simp: nested_def py_get_def)
  next
    case (Some y)
    then have "x = y" using assms(1) raw by simp
    then obtain m where "y = JObj m" using assms(2) by (cases y) (auto simp: py_get_def)
    then show ?thesis using Some assms raw \<open>x = y\<close> by (simp add: nested_def py_get_object)
  qed
qed

lemma read_weather:
  assumes "py_get raw ''weather'' = Inr w"
    "py_index0 (if py_truthy w then w else JArr [JObj []]) = Inr we"
    "py_get we f = Inr v"
  shows "v = or_null (first_weather raw f)"
proof -
  obtain d where raw: "raw = JObj d" using assms(1) by (cases raw) (auto simp: py_get_def)
  have w: "w = or_null (map_of d ''weather'')" using assms(1) raw by (simp add: py_get_object)
  show ?thesis
  proof (cases "py_truthy w")
    case False
    then have "we = JObj []" using assms(2) by simp
    then have v: "v = JNull" using assms(3) by (simp add: py_get_object)
    have "first_weather raw f = None"
      using False w raw by (cases "map_of d ''weather''"; cases w)
        (auto simp: first_weather_def split: list.splits)
    then show ?thesis using v by simp
  next
    case True
    then have idx: "py_index0 w = Inr we" using assms(2) by simp
    show ?thesis
    proof (cases w)
      case (JArr xs)
      then obtain x ys where xs: "xs = x # ys" using True by (cases xs) auto
      then have "we = x" using idx JArr by simp
      then obtain m where "x = JObj m" using assms(3) by (cases x) (auto simp: py_get_def)
      then show ?thesis using assms(3) \<open>we = x\<close> w raw JArr xs
        by (cases "map_of d ''weather''") (auto simp: first_weather_def py_get_object)
    next
      case (JStr s)
      then show ?thesis using idx assms(3) by (cases s) (auto simp: py_get_def)
    qed (use idx True in auto)
  qed
qed

lemma transform_columns:
  assumes "transform_weather_data loc raw now = Inr obs"
  shows "temp_k obs = or_null (nested raw ''main'' ''temp'')"
    and "kelvin_to_celsius (temp_k obs) = Inr (temp_c obs)"
    and "kelvin_to_celsius (or_null (nested raw ''main'' ''feels_like'')) = Inr (feels_like_c obs)"
    and "humidity obs = or_null (nested raw ''main'' ''humidity'')"
    and "pressure obs = or_null (nested raw ''main'' ''pressure'')"
    and "wind_speed obs = or_null (nested raw ''wind'' ''speed'')"
    and "wind_deg obs = or_null (nested raw ''wind'' ''deg'')"
    and "lat obs = or_null (nested raw ''coord'' ''lat'')"
    and "lon obs = or_null (nested raw ''coord'' ''lon'')"
    and "weather_main obs = or_null (first_weather raw ''main'')"
    and "weather_description obs = or_null (first_weather raw ''description'')"
proof -
  from transform_InrD[OF assms] obtain main wind coord w weather fk where
    g: "py_get_default raw ''main'' (JObj []) = Inr main"
       "py_get_default raw ''wind'' (JObj []) = Inr wind"
       "py_get_default raw ''coord'' (JObj []) = Inr coord"
       "py_get raw ''weather'' = Inr w"
       "py_index0 (if py_truthy w then w else JArr [JObj []]) = Inr weather" and
    r: "py_get main ''temp'' = Inr (temp_k obs)"
       "kelvin_to_celsius (temp_k obs) = Inr (temp_c obs)"
       "py_get main ''feels_like'' = Inr fk"
       "kelvin_to_celsius fk = Inr (feels_like_c obs)"
       "py_get main ''humidity'' = Inr (humidity obs)"
       "py_get main ''pressure'' = Inr (pressure obs)"
       "py_get wind ''speed'' = Inr (wind_speed obs)"
       "py_get wind ''deg'' = Inr (wind_deg obs)"
       "py_get coord ''lat'' = Inr (lat obs)"
       "py_get coord ''lon'' = Inr (lon obs)"
       "py_get weather ''main'' = Inr (weather_main obs)"
       "py_get weather ''description'' = Inr (weather_description obs)"
    by blast
  show "temp_k obs = or_null (nested raw ''main'' ''temp'')"
    by (rule read_nested[OF g(1) r(1)])
  show "kelvin_to_celsius (temp_k obs) = Inr (temp_c obs)" by (rule r(2))
  show "kelvin_to_celsius (or_null (nested raw ''main'' ''feels_like'')) = Inr (feels_like_c obs)"
    using read_nested[OF g(1) r(3)] r(4) by simp
  show "humidity obs = or_null (nested raw ''main'' ''humidity'')"
    by (rule read_nested[OF g(1) r(5)])
  show "pressure obs = or_null (nested raw ''main'' ''pressure'')"
    by (rule read_nested[OF g(1) r(6)])
  show "wind_speed obs = or_null (nested raw ''wind'' ''speed'')"
    by (rule read_nested[OF g(2) r(7)])
  show "wind_deg obs = or_null (nested raw ''wind'' ''deg'')"
    by (rule read_nested[OF g(2) r(8)])
  show "lat obs = or_null (nested raw ''coord'' ''lat'')"
    by (rule read_nested[OF g(3) r(9)])
  show "lon obs = or_null (nested raw ''coord'' ''lon'')"
    by (rule read_nested[OF g(3) r(10)])
  show "weather_main obs = or_null (first_weather raw ''main'')"
    by (rule read_weather[OF g(4) g(5) r(11)])
  show "weather_description obs = or_null (first_weather raw ''description'')"
    by (rule read_weather[OF g(4) g(5) r(12)])
qed





text \<open>
  Claim C8. When \<^verbatim>\<open>main.temp\<close> is a Kelvin value \<open>k\<close>, the observation has
  \<open>temp_c = k - 273.15\<close>, and likewise \<open>feels_like_c\<close> from \<^verbatim>\<open>main.feels_like\<close>; when
  \<^verbatim>\<open>main.temp\<close> is absent, \<open>temp_c\<close> and \<open>temp_k\<close> are both \<^verbatim>\<open>None\<close>. The
  transformation returns on every payload of the provider's shape.
\<close>

theorem transform_celsius:
  "(provider_shaped raw \<and> clock_ok now \<longrightarrow>
      (\<exists>obs. transform_weather_data loc raw now = Inr obs)) \<and>
   (\<forall>obs. transform_weather_data loc raw now = Inr obs \<longrightarrow>
      (\<forall>k. nested raw ''main'' ''temp'' = Some (JNum k) \<longrightarrow>
         temp_k obs = JNum k \<and> temp_c obs = Some (k - 273.15)) \<and>
      (\<forall>k. nested raw ''main'' ''feels_like'' = Some (JNum k) \<longrightarrow>
         feels_like_c obs = Some (k - 273.15)) \<and>
      (nested raw ''main'' ''temp'' = None \<longrightarrow> temp_k obs = JNull \<and> temp_c obs = None))"
proof (intro conjI impI allI)
  assume "provider_shaped raw \<and> clock_ok now"
  then show "\<exists>obs. transform_weather_data loc raw now = Inr obs"
    using transform_shaped[of raw now loc] by blast
next
  fix obs k assume t: "transform_weather_data loc raw now = Inr obs"
  note c = transform_columns[OF t]
  { assume "nested raw ''main'' ''temp'' = Some (JNum k)"
    then show "temp_k obs = JNum k" using c(1) by simp
    then show "temp_c obs = Some (k - 273.15)" using c(2) by (simp split: if_splits) }
  { assume "nested raw ''main'' ''feels_like'' = Some (JNum k)"
    then show "feels_like_c obs = Some (k - 273.15)" using c(3) by (simp split: if_splits) }
next
  fix obs assume t: "transform_weather_data loc raw now = Inr obs"
  note c = transform_columns[OF t]
  assume "nested raw ''main'' ''temp'' = None"
  then show "temp_k obs = JNull" using c(1) by simp
  then show "temp_c obs = None" using c(2) by simp
qed



theorem transform_celsius_witness:
  "\<exists>obs. transform_weather_data ''New York,US''
            (JObj [(''dt'', JNum 1640995200),
                   (''main'', JObj [(''temp'', JNum 293.15), (''feels_like'', JNum 290.15)])])
            1700000000 = Inr obs \<and>
         temp_c obs = Some 20 \<and> feels_like_c obs = Some 17"
proof -
  let ?raw = "JObj [(''dt'', JNum 1640995200),
                    (''main'', JObj [(''temp'', JNum 293.15), (''feels_like'', JNum 290.15)])]"
  have sh: "provider_shaped ?raw \<and> clock_ok 1700000000"
    by (simp add: clock_ok_def)
  have n: "nested ?raw ''main'' ''temp'' = Some (JNum 293.15)"
    "nested ?raw ''main'' ''feels_like'' = Some (JNum 290.15)"
    by (simp_all add: nested_def)
  have a: "(293.15::real) - 273.15 = 20" "(290.15::real) - 273.15 = 17" by simp_all
  show ?thesis
    using transform_celsius[of ?raw 1700000000 "''New York,US''"] sh n a
    by metis
qed

text \<open>A nested object that is present but \<^verbatim>\<open>null\<close> is not read as empty: the
  transformation raises, and \<open>fetch_and_transform_location\<close> catches it.\<close>

lemma transform_null_object_raises:
  "transform_weather_data loc (JObj [(''dt'', JNum 1640995200), (''main'', JNull)]) now
     = Inl AttributeError"
  by (simp add: transform_weather_data_def py_get_def)

section \<open>Properties of the retry loop\<close>

lemma fetch_fails_raises:
  "fetch_fails net loc (requests w) \<Longrightarrow>
   fetch_weather_data net loc w =
     (Inl WeatherAPIError, w\<lparr>requests := Suc (requests w), trace := trace w @ [Fetch loc]\<rparr>)"
  by (cases "net (requests w) loc") (simp_all add: fetch_fails_def fetch_weather_data_def)

lemma try_attempt_fetch_fails:
  assumes "fetch c = fetch_weather_data net" "fetch_fails net loc (requests w)"
  shows "try_attempt c loc w =
     (Inl WeatherAPIError, w\<lparr>requests := Suc (requests w), trace := trace w @ [Fetch loc]\<rparr>)"
  using assms by (simp add: try_attempt_def fetch_fails_raises)

lemma attempt_loop_all_fail:
  assumes c: "fetch c = fetch_weather_data net"
    and fails: "\<forall>n. fetch_fails net loc n"
    and d: "0 \<le> RETRY_DELAY_SECONDS cfg"
  shows "k = nat (MAX_RETRIES cfg - i) \<Longrightarrow>
         attempt_loop cfg c loc [i .. MAX_RETRIES cfg - 1] w =
           (Inr None,
            w\<lparr>clock := clock w + of_int (RETRY_DELAY_SECONDS cfg) * of_nat (k - 1),
              requests := requests w + k,
              trace := trace w @ retry_trace loc (RETRY_DELAY_SECONDS cfg) k\<rparr>)"
proof (induction k arbitrary: i w)
  case 0
  then have "[i .. MAX_RETRIES cfg - 1] = []" by simp
  then show ?case by simp
next
  case (Suc k)
  then have le: "i \<le> MAX_RETRIES cfg - 1" by linarith
  then have up: "[i .. MAX_RETRIES cfg - 1] = i # [i + 1 .. MAX_RETRIES cfg - 1]"
    by (simp add: upto_rec1)
  let ?w1 = "w\<lparr>requests := Suc (requests w), trace := trace w @ [Fetch loc]\<rparr>"
  have t: "try_attempt c loc w = (Inl WeatherAPIError, ?w1)"
    using try_attempt_fetch_fails[OF c] fails by blast
  show ?case
  proof (cases k)
    case 0
    then have "i = MAX_RETRIES cfg - 1" using Suc.prems by linarith
    then show ?thesis using up t 0 by simp
  next
    case (Suc k')
    then have lt: "i < MAX_RETRIES cfg - 1" using Suc.prems by linarith
    have k: "k = nat (MAX_RETRIES cfg - (i + 1))" using Suc.prems by linarith
    let ?w2 = "?w1\<lparr>clock := clock ?w1 + of_int (RETRY_DELAY_SECONDS cfg),
                    trace := trace ?w1 @ [Sleep (RETRY_DELAY_SECONDS cfg)]\<rparr>"
    have s: "py_sleep (RETRY_DELAY_SECONDS cfg) ?w1 = Inr ?w2"
      using d by (simp add: py_sleep_def)
    have "attempt_loop cfg c loc [i .. MAX_RETRIES cfg - 1] w =
          attempt_loop cfg c loc [i + 1 .. MAX_RETRIES cfg - 1] ?w2"
      using up t lt s by simp
    also have "\<dots> = (Inr None,
            ?w2\<lparr>clock := clock ?w2 + of_int (RETRY_DELAY_SECONDS cfg) * of_nat (k - 1),
              requests := requests ?w2 + k,
              trace := trace ?w2 @ retry_trace loc (RETRY_DELAY_SECONDS cfg) k\<rparr>)"
      by (rule Suc.IH[OF k])
    finally show ?thesis using Suc by (simp add: algebra_simps)
  qed
qed


lemma retry_trace_fetches:
  "length (filter (\<lambda>e. e = Fetch loc) (retry_trace loc d k)) = k"
  by (induction loc d k rule: retry_trace.induct) simp_all

lemma retry_trace_sleeps:
  "length (filter (\<lambda>e. e = Sleep d) (retry_trace loc d k)) = k - 1"
  by (induction loc d k rule: retry_trace.induct) simp_all

lemma retry_trace_nonempty: "retry_trace loc d (Suc k) \<noteq> []"
  by (cases k) simp_all

lemma retry_trace_last:
  "0 < k \<Longrightarrow> last (retry_trace loc d k) = Fetch loc"
  by (induction loc d k rule: retry_trace.induct) (simp_all add: retry_trace_nonempty)

lemma fetch_with_validate [simp]:
  "fetch (with_validate (WeatherAPIClient net) v) = fetch_weather_data net"
  "transform (with_validate (WeatherAPIClient net) v) = transform_weather_data"
  "validate (with_validate (WeatherAPIClient net) v) = v"
  by (simp_all add: with_validate_def WeatherAPIClient_def)

lemma fetch_real_client [simp]:
  "fetch (WeatherAPIClient net) = fetch_weather_data net"
  "transform (WeatherAPIClient net) = transform_weather_data"
  "validate (WeatherAPIClient net) = validate_weather_data"
  by (simp_all add: WeatherAPIClient_def)

text \<open>
  Claim C2. When every request for the location fails with a network error, the
  function makes exactly \<open>MAX_RETRIES\<close> fetch attempts, sleeps \<open>RETRY_DELAY_SECONDS\<close>
  between consecutive attempts and not after the last, and returns \<^verbatim>\<open>None\<close>.
\<close>

theorem retries_exhausted:
  assumes "\<forall>n. net n loc = ConnectionFailed"
    and "0 \<le> MAX_RETRIES cfg" and "0 \<le> RETRY_DELAY_SECONDS cfg"
  shows "\<exists>new.
           fetch_and_transform_location cfg loc (WeatherAPIClient net) w =
             (Inr None,
              w\<lparr>clock := clock w + of_int (RETRY_DELAY_SECONDS cfg) * of_nat (nat (MAX_RETRIES cfg) - 1),
                requests := requests w + nat (MAX_RETRIES cfg),
                trace := trace w @ new\<rparr>) \<and>
           new = retry_trace loc (RETRY_DELAY_SECONDS cfg) (nat (MAX_RETRIES cfg)) \<and>
           int (length (filter (\<lambda>e. e = Fetch loc) new)) = MAX_RETRIES cfg \<and>
           int (length (filter (\<lambda>e. e = Sleep (RETRY_DELAY_SECONDS cfg)) new)) =
             max 0 (MAX_RETRIES cfg - 1) \<and>
           (new \<noteq> [] \<longrightarrow> last new = Fetch loc)"
proof -
  have fails: "\<forall>n. fetch_fails net loc n" using assms(1) by (simp add: fetch_fails_def)
  have "fetch_and_transform_location cfg loc (WeatherAPIClient net) w =
          (Inr None,
           w\<lparr>clock := clock w + of_int (RETRY_DELAY_SECONDS cfg) * of_nat (nat (MAX_RETRIES cfg) - 1),
             requests := requests w + nat (MAX_RETRIES cfg),
             trace := trace w @ retry_trace loc (RETRY_DELAY_SECONDS cfg) (nat (MAX_RETRIES cfg))\<rparr>)"
    unfolding fetch_and_transform_location_def
    using attempt_loop_all_fail[OF fetch_real_client(1) fails assms(3), of "nat (MAX_RETRIES cfg)" 0 w]
    by simp
  moreover have "retry_trace loc (RETRY_DELAY_SECONDS cfg) (nat (MAX_RETRIES cfg)) \<noteq> [] \<longrightarrow>
      last (retry_trace loc (RETRY_DELAY_SECONDS cfg) (nat (MAX_RETRIES cfg))) = Fetch loc"
    using retry_trace_last[of "nat (MAX_RETRIES cfg)" loc] by (cases "nat (MAX_RETRIES cfg)") auto
  ultimately show ?thesis
    using assms(2) by (simp add: retry_trace_fetches retry_trace_sleeps)
qed

theorem retries_exhausted_witness:
  "fetch_and_transform_location default_config ''Kandy,Sri Lanka''
     (WeatherAPIClient unreachable_network) initial_world =
   (Inr None,
    \<lparr> clock = 1700000010, requests = 3,
      trace = [Fetch ''Kandy,Sri Lanka'', Sleep 5, Fetch ''Kandy,Sri Lanka'', Sleep 5,
               Fetch ''Kandy,Sri Lanka''] \<rparr>)"
proof -
  have h: "\<forall>n. unreachable_network n ''Kandy,Sri Lanka'' = ConnectionFailed"
    "0 \<le> MAX_RETRIES default_config" "0 \<le> RETRY_DELAY_SECONDS default_config"
    by (simp_all add: unreachable_network_def default_config_def)
  have n: "nat (MAX_RETRIES default_config) = Suc (Suc (Suc 0))"
    by (simp add: default_config_def)
  show ?thesis
    using retries_exhausted[of unreachable_network "''Kandy,Sri Lanka''" default_config
        initial_world] h
    by (simp add: n) (simp add: default_config_def initial_world_def)
qed


lemma try_attempt_world:
  assumes "fetch c = fetch_weather_data net"
  shows "snd (try_attempt c loc w) =
           w\<lparr>requests := Suc (requests w), trace := trace w @ [Fetch loc]\<rparr>"
  using assms
  by (cases "net (requests w) loc")
     (auto simp: try_attempt_def fetch_weather_data_def split: sum.splits)

lemma attempt_loop_trace_extends:
  assumes "fetch c = fetch_weather_data net"
  shows "\<exists>r. trace (snd (attempt_loop cfg c loc xs w)) = trace w @ r"
proof (induction xs arbitrary: w)
  case Nil
  then show ?case by simp
next
  case (Cons a xs)
  obtain res w1 where t: "try_attempt c loc w = (res, w1)" by (cases "try_attempt c loc w")
  have w1: "w1 = w\<lparr>requests := Suc (requests w), trace := trace w @ [Fetch loc]\<rparr>"
    using try_attempt_world[OF assms, of loc w] t by simp
  show ?case
  proof (cases res)
    case (Inr r)
    then show ?thesis using t w1 by simp
  next
    case (Inl e)
    show ?thesis
    proof (cases "e = WeatherAPIError \<and> a < MAX_RETRIES cfg - 1 \<and> 0 \<le> RETRY_DELAY_SECONDS cfg")
      case True
      let ?w2 = "w1\<lparr>clock := clock w1 + of_int (RETRY_DELAY_SECONDS cfg),
                     trace := trace w1 @ [Sleep (RETRY_DELAY_SECONDS cfg)]\<rparr>"
      obtain r where "trace (snd (attempt_loop cfg c loc xs ?w2)) = trace ?w2 @ r"
        using Cons.IH by blast
      then show ?thesis using t Inl True w1 by (simp add: py_sleep_def)
    next
      case False
      then show ?thesis using t Inl w1 by (auto simp: py_sleep_def)
    qed
  qed
qed

text \<open>
  Claim C1, as stated, fails: with the default configuration and a provider whose
  payload cannot be decoded, the location is fetched three times with two delays.
\<close>

theorem malformed_response_one_attempt_counterexample:
  "fetch_and_transform_location default_config ''Kandy,Sri Lanka''
     (WeatherAPIClient malformed_network) initial_world =
   (Inr None,
    \<lparr> clock = 1700000010, requests = 3,
      trace = [Fetch ''Kandy,Sri Lanka'', Sleep 5, Fetch ''Kandy,Sri Lanka'', Sleep 5,
               Fetch ''Kandy,Sri Lanka''] \<rparr>)"
  by (simp add: fetch_and_transform_location_def default_config_def initial_world_def
        malformed_network_def upto_rec1 try_attempt_def fetch_weather_data_def py_sleep_def)

text \<open>What the loop does when the first request of the call fails to decode, and when
  its body fails validation.\<close>

lemma retry_cases_first_request:
  "(net (requests w) loc = Undecodable \<and> 1 < MAX_RETRIES cfg \<and> 0 \<le> RETRY_DELAY_SECONDS cfg \<longrightarrow>
      (\<exists>rest. trace (snd (fetch_and_transform_location cfg loc
                             (with_validate (WeatherAPIClient net) v) w)) =
               trace w @ Fetch loc # Sleep (RETRY_DELAY_SECONDS cfg) # Fetch loc # rest)) \<and>
   (net (requests w) loc = Undecodable \<and> MAX_RETRIES cfg = 1 \<longrightarrow>
      fetch_and_transform_location cfg loc (with_validate (WeatherAPIClient net) v) w =
        (Inr None, w\<lparr>requests := Suc (requests w), trace := trace w @ [Fetch loc]\<rparr>)) \<and>
   ((\<forall>n. net n loc = Undecodable) \<and> 0 \<le> MAX_RETRIES cfg \<and> 0 \<le> RETRY_DELAY_SECONDS cfg \<longrightarrow>
      fetch_and_transform_location cfg loc (with_validate (WeatherAPIClient net) v) w =
        (Inr None,
         w\<lparr>clock := clock w + of_int (RETRY_DELAY_SECONDS cfg) * of_nat (nat (MAX_RETRIES cfg) - 1),
           requests := requests w + nat (MAX_RETRIES cfg),
           trace := trace w @ retry_trace loc (RETRY_DELAY_SECONDS cfg) (nat (MAX_RETRIES cfg))\<rparr>)) \<and>
   (\<forall>raw obs. net (requests w) loc = Body raw \<and>
      transform_weather_data loc raw (clock w) = Inr obs \<and> \<not> v obs \<and> 0 < MAX_RETRIES cfg \<longrightarrow>
      fetch_and_transform_location cfg loc (with_validate (WeatherAPIClient net) v) w =
        (Inr None, w\<lparr>requests := Suc (requests w), trace := trace w @ [Fetch loc]\<rparr>))"
proof (intro conjI impI allI)
  let ?c = "with_validate (WeatherAPIClient net) v"
  let ?w1 = "w\<lparr>requests := Suc (requests w), trace := trace w @ [Fetch loc]\<rparr>"
  have c: "fetch ?c = fetch_weather_data net" by simp
  { assume a: "net (requests w) loc = Undecodable \<and> 1 < MAX_RETRIES cfg \<and>
               0 \<le> RETRY_DELAY_SECONDS cfg"
    let ?w2 = "?w1\<lparr>clock := clock ?w1 + of_int (RETRY_DELAY_SECONDS cfg),
                    trace := trace ?w1 @ [Sleep (RETRY_DELAY_SECONDS cfg)]\<rparr>"
    have up: "[0 .. MAX_RETRIES cfg - 1] = 0 # 1 # [2 .. MAX_RETRIES cfg - 1]"
      using a by (simp add: upto_rec1)
    have t: "try_attempt ?c loc w = (Inl WeatherAPIError, ?w1)"
      using a by (intro try_attempt_fetch_fails[OF c]) (simp add: fetch_fails_def)
    have step: "fetch_and_transform_location cfg loc ?c w =
                  attempt_loop cfg ?c loc (1 # [2 .. MAX_RETRIES cfg - 1]) ?w2"
      using a t up by (simp add: fetch_and_transform_location_def py_sleep_def)
    obtain res w3 where t2: "try_attempt ?c loc ?w2 = (res, w3)"
      by (cases "try_attempt ?c loc ?w2")
    have w3: "w3 = ?w2\<lparr>requests := Suc (requests ?w2), trace := trace ?w2 @ [Fetch loc]\<rparr>"
      using try_attempt_world[OF c, of loc ?w2] t2 by simp
    have "\<exists>r. trace (snd (attempt_loop cfg ?c loc (1 # [2 .. MAX_RETRIES cfg - 1]) ?w2)) =
               trace w3 @ r"
    proof (cases res)
      case (Inr r)
      then show ?thesis using t2 by simp
    next
      case (Inl e)
      show ?thesis
      proof (cases "e = WeatherAPIError \<and> 1 < MAX_RETRIES cfg - 1")
        case True
        let ?w4 = "w3\<lparr>clock := clock w3 + of_int (RETRY_DELAY_SECONDS cfg),
                       trace := trace w3 @ [Sleep (RETRY_DELAY_SECONDS cfg)]\<rparr>"
        obtain r where "trace (snd (attempt_loop cfg ?c loc [2 .. MAX_RETRIES cfg - 1] ?w4)) =
                          trace ?w4 @ r"
          using attempt_loop_trace_extends[OF c] by blast
        then show ?thesis using t2 Inl True a by (simp add: py_sleep_def)
      next
        case False
        then show ?thesis using t2 Inl by auto
      qed
    qed
    then show "\<exists>rest. trace (snd (fetch_and_transform_location cfg loc ?c w)) =
               trace w @ Fetch loc # Sleep (RETRY_DELAY_SECONDS cfg) # Fetch loc # rest"
      using step w3 by auto }
  { assume a: "net (requests w) loc = Undecodable \<and> MAX_RETRIES cfg = 1"
    have t: "try_attempt ?c loc w = (Inl WeatherAPIError, ?w1)"
      using a by (intro try_attempt_fetch_fails[OF c]) (simp add: fetch_fails_def)
    show "fetch_and_transform_location cfg loc ?c w = (Inr None, ?w1)"
      using a t by (simp add: fetch_and_transform_location_def) }
  { assume a: "(\<forall>n. net n loc = Undecodable) \<and> 0 \<le> MAX_RETRIES cfg \<and>
               0 \<le> RETRY_DELAY_SECONDS cfg"
    then have fails: "\<forall>n. fetch_fails net loc n" by (simp add: fetch_fails_def)
    show "fetch_and_transform_location cfg loc ?c w =
        (Inr None,
         w\<lparr>clock := clock w + of_int (RETRY_DELAY_SECONDS cfg) * of_nat (nat (MAX_RETRIES cfg) - 1),
           requests := requests w + nat (MAX_RETRIES cfg),
           trace := trace w @ retry_trace loc (RETRY_DELAY_SECONDS cfg) (nat (MAX_RETRIES cfg))\<rparr>)"
      unfolding fetch_and_transform_location_def
      using attempt_loop_all_fail[OF c fails, of cfg "nat (MAX_RETRIES cfg)" 0 w] a
      by simp }
  { fix raw obs
    assume a: "net (requests w) loc = Body raw \<and>
      transform_weather_data loc raw (clock w) = Inr obs \<and> \<not> v obs \<and> 0 < MAX_RETRIES cfg"
    have up: "[0 .. MAX_RETRIES cfg - 1] = 0 # [1 .. MAX_RETRIES cfg - 1]"
      using a by (simp add: upto_rec1)
    have t: "try_attempt ?c loc w = (Inr None, ?w1)"
      using a by (simp add: try_attempt_def fetch_weather_data_def)
    show "fetch_and_transform_location cfg loc ?c w = (Inr None, ?w1)"
      using t up by (simp add: fetch_and_transform_location_def) }
qed


lemma sample_payload_shaped: "provider_shaped sample_payload"
  by (simp add: sample_payload_def)


text \<open>After \<open>k\<close> failed requests the loop stands at attempt \<open>k\<close>, and an attempt that
  ends otherwise than in a \<^verbatim>\<open>WeatherAPIError\<close> ends the call.\<close>

lemma after_failures_0: "after_failures cfg loc 0 w = w"
  by (simp add: after_failures_def)

lemma after_failures_Suc:
  "after_failures cfg loc k
     (w\<lparr>requests := Suc (requests w), trace := trace w @ [Fetch loc],
        clock := clock w + of_int (RETRY_DELAY_SECONDS cfg),
        trace := trace w @ [Fetch loc] @ [Sleep (RETRY_DELAY_SECONDS cfg)]\<rparr>) =
   after_failures cfg loc (Suc k) w"
  by (simp add: after_failures_def algebra_simps)

lemma attempt_loop_after_failures:
  assumes c: "fetch c = fetch_weather_data net"
  shows "(\<forall>i<k. fetch_fails net loc (requests w + i)) \<Longrightarrow>
         a + int k \<le> MAX_RETRIES cfg - 1 \<Longrightarrow>
         k = 0 \<or> 0 \<le> RETRY_DELAY_SECONDS cfg \<Longrightarrow>
         attempt_loop cfg c loc [a .. MAX_RETRIES cfg - 1] w =
           attempt_loop cfg c loc [a + int k .. MAX_RETRIES cfg - 1] (after_failures cfg loc k w)"
proof (induction k arbitrary: a w)
  case 0
  then show ?case by (simp add: after_failures_0)
next
  case (Suc k)
  let ?d = "RETRY_DELAY_SECONDS cfg"
  let ?w1 = "w\<lparr>requests := Suc (requests w), trace := trace w @ [Fetch loc]\<rparr>"
  let ?w2 = "w\<lparr>requests := Suc (requests w), trace := trace w @ [Fetch loc],
        clock := clock w + of_int ?d, trace := trace w @ [Fetch loc] @ [Sleep ?d]\<rparr>"
  have d: "0 \<le> ?d" using Suc.prems(3) by simp
  have lt: "a < MAX_RETRIES cfg - 1" using Suc.prems(2) by linarith
  then have up: "[a .. MAX_RETRIES cfg - 1] = a # [a + 1 .. MAX_RETRIES cfg - 1]"
    by (simp add: upto_rec1)
  have "fetch_fails net loc (requests w)" using Suc.prems(1)[rule_format, of 0] by simp
  then have t: "try_attempt c loc w = (Inl WeatherAPIError, ?w1)"
    by (rule try_attempt_fetch_fails[OF c])
  have s: "py_sleep ?d ?w1 = Inr ?w2" using d by (simp add: py_sleep_def)
  have step: "attempt_loop cfg c loc [a .. MAX_RETRIES cfg - 1] w =
              attempt_loop cfg c loc [a + 1 .. MAX_RETRIES cfg - 1] ?w2"
    unfolding up using t lt s by simp
  have f: "\<forall>i<k. fetch_fails net loc (requests ?w2 + i)"
  proof (intro allI impI)
    fix i assume "i < k"
    then have "Suc i < Suc k" by simp
    then have "fetch_fails net loc (requests w + Suc i)" using Suc.prems(1) by blast
    then show "fetch_fails net loc (requests ?w2 + i)" by simp
  qed
  have l: "(a + 1) + int k \<le> MAX_RETRIES cfg - 1" using Suc.prems(2) by simp
  have "attempt_loop cfg c loc [a + 1 .. MAX_RETRIES cfg - 1] ?w2 =
        attempt_loop cfg c loc [(a + 1) + int k .. MAX_RETRIES cfg - 1] (after_failures cfg loc k ?w2)"
    using Suc.IH[OF f l] d by simp
  also have "(a + 1) + int k = a + int (Suc k)" by simp
  also have "after_failures cfg loc k ?w2 = after_failures cfg loc (Suc k) w"
    by (rule after_failures_Suc)
  finally show ?case using step by simp
qed

lemma fetch_and_transform_after_failures:
  assumes c: "fetch c = fetch_weather_data net"
    and "\<forall>i<k. fetch_fails net loc (requests w + i)"
    and "int k < MAX_RETRIES cfg"
    and "k = 0 \<or> 0 \<le> RETRY_DELAY_SECONDS cfg"
  shows "fetch_and_transform_location cfg loc c w =
           attempt_loop cfg c loc (int k # [int k + 1 .. MAX_RETRIES cfg - 1])
             (after_failures cfg loc k w)"
proof -
  have l: "0 + int k \<le> MAX_RETRIES cfg - 1" using assms(3) by simp
  have up: "[int k .. MAX_RETRIES cfg - 1] = int k # [int k + 1 .. MAX_RETRIES cfg - 1]"
    using assms(3) by (simp add: upto_rec1)
  show ?thesis
    unfolding fetch_and_transform_location_def
    using attempt_loop_after_failures[OF c assms(2) l assms(4)] up by simp
qed


lemma ended_attempt:
  assumes c: "fetch c = fetch_weather_data net"
    and "\<forall>i<k. fetch_fails net loc (requests w + i)"
    and "int k < MAX_RETRIES cfg"
    and "k = 0 \<or> 0 \<le> RETRY_DELAY_SECONDS cfg"
    and t: "try_attempt c loc (after_failures cfg loc k w) = (res, w')"
    and r: "res = Inr r \<or> (\<exists>e. res = Inl e \<and> e \<noteq> WeatherAPIError \<and> is_Exception e)"
  shows "fetch_and_transform_location cfg loc c w =
           ((case res of Inr x \<Rightarrow> Inr x | Inl e \<Rightarrow> Inr None),
            (after_failures cfg loc k w)
              \<lparr>requests := Suc (requests w + k),
               trace := trace (after_failures cfg loc k w) @ [Fetch loc]\<rparr>)"
proof -
  have w': "w' = (after_failures cfg loc k w)
              \<lparr>requests := Suc (requests w + k),
               trace := trace (after_failures cfg loc k w) @ [Fetch loc]\<rparr>"
    using try_attempt_world[OF c, of loc "after_failures cfg loc k w"] t
    by (simp add: after_failures_def)
  show ?thesis
    unfolding fetch_and_transform_after_failures[OF assms(1-4)]
    using t r w' by auto
qed

lemma validation_failure_ends:
  assumes "\<forall>i<k. fetch_fails net loc (requests w + i)"
    and "net (requests w + k) loc = Body raw"
    and "transform_weather_data loc raw (clock (after_failures cfg loc k w)) = Inr obs"
    and "\<not> v obs"
    and "int k < MAX_RETRIES cfg"
    and "k = 0 \<or> 0 \<le> RETRY_DELAY_SECONDS cfg"
  shows "fetch_and_transform_location cfg loc (with_validate (WeatherAPIClient net) v) w =
           (Inr None,
            (after_failures cfg loc k w)
              \<lparr>requests := Suc (requests w + k),
               trace := trace (after_failures cfg loc k w) @ [Fetch loc]\<rparr>)"
proof -
  let ?c = "with_validate (WeatherAPIClient net) v"
  let ?wk = "after_failures cfg loc k w"
  have c: "fetch ?c = fetch_weather_data net" by simp
  have rq: "requests ?wk = requests w + k" by (simp add: after_failures_def)
  obtain w' where t: "try_attempt ?c loc ?wk = (Inr None, w')"
    using assms(2,3,4) rq by (simp add: try_attempt_def fetch_weather_data_def)
  show ?thesis
    using ended_attempt[OF c assms(1,5,6) t] by simp
qed

lemma decoder_crash_ends:
  assumes "\<forall>i<k. fetch_fails net loc (requests w + i)"
    and "net (requests w + k) loc = DecoderCrashed"
    and "int k < MAX_RETRIES cfg"
    and "k = 0 \<or> 0 \<le> RETRY_DELAY_SECONDS cfg"
  shows "fetch_and_transform_location cfg loc (with_validate (WeatherAPIClient net) v) w =
           (Inr None,
            (after_failures cfg loc k w)
              \<lparr>requests := Suc (requests w + k),
               trace := trace (after_failures cfg loc k w) @ [Fetch loc]\<rparr>)"
proof -
  let ?c = "with_validate (WeatherAPIClient net) v"
  let ?wk = "after_failures cfg loc k w"
  have c: "fetch ?c = fetch_weather_data net" by simp
  have rq: "requests ?wk = requests w + k" by (simp add: after_failures_def)
  obtain w' where t: "try_attempt ?c loc ?wk = (Inl RecursionError, w')"
    using assms(2) rq by (simp add: try_attempt_def fetch_weather_data_def)
  show ?thesis
    using ended_attempt[OF c assms(1,3,4) t] by simp
qed

text \<open>
  Claim C1, amended. An undecodable payload raises the same \<^verbatim>\<open>WeatherAPIError\<close> as the
  other fetch failures and is retried like them: when the first attempt fails so and
  \<open>MAX_RETRIES > 1\<close>, a second attempt follows after \<open>RETRY_DELAY_SECONDS\<close>; only with
  \<open>MAX_RETRIES = 1\<close> is there exactly one attempt; when every attempt fails so, there
  are \<open>MAX_RETRIES\<close> attempts and a failed result. A validation failure is never
  retried: at whichever attempt it happens, after any number of failed fetches, the
  function returns the failed result with that attempt, without a delay and without a
  further fetch. The same holds for a body that the decoder cannot take in at all.
\<close>

theorem malformed_response_is_retried:
  "(net (requests w) loc = Undecodable \<and> 1 < MAX_RETRIES cfg \<and> 0 \<le> RETRY_DELAY_SECONDS cfg \<longrightarrow>
      (\<exists>rest. trace (snd (fetch_and_transform_location cfg loc
                             (with_validate (WeatherAPIClient net) v) w)) =
               trace w @ Fetch loc # Sleep (RETRY_DELAY_SECONDS cfg) # Fetch loc # rest)) \<and>
   (net (requests w) loc = Undecodable \<and> MAX_RETRIES cfg = 1 \<longrightarrow>
      fetch_and_transform_location cfg loc (with_validate (WeatherAPIClient net) v) w =
        (Inr None, w\<lparr>requests := Suc (requests w), trace := trace w @ [Fetch loc]\<rparr>)) \<and>
   ((\<forall>n. net n loc = Undecodable) \<and> 0 \<le> MAX_RETRIES cfg \<and> 0 \<le> RETRY_DELAY_SECONDS cfg \<longrightarrow>
      fetch_and_transform_location cfg loc (with_validate (WeatherAPIClient net) v) w =
        (Inr None,
         w\<lparr>clock := clock w + of_int (RETRY_DELAY_SECONDS cfg) * of_nat (nat (MAX_RETRIES cfg) - 1),
           requests := requests w + nat (MAX_RETRIES cfg),
           trace := trace w @ retry_trace loc (RETRY_DELAY_SECONDS cfg) (nat (MAX_RETRIES cfg))\<rparr>)) \<and>
   (\<forall>k raw obs.
      (\<forall>i<k. fetch_fails net loc (requests w + i)) \<and>
      net (requests w + k) loc = Body raw \<and>
      transform_weather_data loc raw (clock (after_failures cfg loc k w)) = Inr obs \<and>
      \<not> v obs \<and> int k < MAX_RETRIES cfg \<and> (k = 0 \<or> 0 \<le> RETRY_DELAY_SECONDS cfg) \<longrightarrow>
      fetch_and_transform_location cfg loc (with_validate (WeatherAPIClient net) v) w =
        (Inr None,
         (after_failures cfg loc k w)
           \<lparr>requests := Suc (requests w + k),
            trace := trace (after_failures cfg loc k w) @ [Fetch loc]\<rparr>)) \<and>
   (\<forall>k.
      (\<forall>i<k. fetch_fails net loc (requests w + i)) \<and>
      net (requests w + k) loc = DecoderCrashed \<and>
      int k < MAX_RETRIES cfg \<and> (k = 0 \<or> 0 \<le> RETRY_DELAY_SECONDS cfg) \<longrightarrow>
      fetch_and_transform_location cfg loc (with_validate (WeatherAPIClient net) v) w =
        (Inr None,
         (after_failures cfg loc k w)
           \<lparr>requests := Suc (requests w + k),
            trace := trace (after_failures cfg loc k w) @ [Fetch loc]\<rparr>))"
proof (intro conjI)
  note first = retry_cases_first_request[of net w loc cfg v]
  show "net (requests w) loc = Undecodable \<and> 1 < MAX_RETRIES cfg \<and> 0 \<le> RETRY_DELAY_SECONDS cfg \<longrightarrow>
      (\<exists>rest. trace (snd (fetch_and_transform_location cfg loc
                             (with_validate (WeatherAPIClient net) v) w)) =
               trace w @ Fetch loc # Sleep (RETRY_DELAY_SECONDS cfg) # Fetch loc # rest)"
    by (rule conjunct1[OF first])
  show "net (requests w) loc = Undecodable \<and> MAX_RETRIES cfg = 1 \<longrightarrow>
      fetch_and_transform_location cfg loc (with_validate (WeatherAPIClient net) v) w =
        (Inr None, w\<lparr>requests := Suc (requests w), trace := trace w @ [Fetch loc]\<rparr>)"
    by (rule conjunct1[OF conjunct2[OF first]])
  show "(\<forall>n. net n loc = Undecodable) \<and> 0 \<le> MAX_RETRIES cfg \<and> 0 \<le> RETRY_DELAY_SECONDS cfg \<longrightarrow>
      fetch_and_transform_location cfg loc (with_validate (WeatherAPIClient net) v) w =
        (Inr None,
         w\<lparr>clock := clock w + of_int (RETRY_DELAY_SECONDS cfg) * of_nat (nat (MAX_RETRIES cfg) - 1),
           requests := requests w + nat (MAX_RETRIES cfg),
           trace := trace w @ retry_trace loc (RETRY_DELAY_SECONDS cfg) (nat (MAX_RETRIES cfg))\<rparr>)"
    by (rule conjunct1[OF conjunct2[OF conjunct2[OF first]]])
  show "\<forall>k raw obs.
      (\<forall>i<k. fetch_fails net loc (requests w + i)) \<and>
      net (requests w + k) loc = Body raw \<and>
      transform_weather_data loc raw (clock (after_failures cfg loc k w)) = Inr obs \<and>
      \<not> v obs \<and> int k < MAX_RETRIES cfg \<and> (k = 0 \<or> 0 \<le> RETRY_DELAY_SECONDS cfg) \<longrightarrow>
      fetch_and_transform_location cfg loc (with_validate (WeatherAPIClient net) v) w =
        (Inr None,
         (after_failures cfg loc k w)
           \<lparr>requests := Suc (requests w + k),
            trace := trace (after_failures cfg loc k w) @ [Fetch loc]\<rparr>)"
    using validation_failure_ends[of _ net loc w _ cfg _ v] by blast
  show "\<forall>k.
      (\<forall>i<k. fetch_fails net loc (requests w + i)) \<and>
      net (requests w + k) loc = DecoderCrashed \<and>
      int k < MAX_RETRIES cfg \<and> (k = 0 \<or> 0 \<le> RETRY_DELAY_SECONDS cfg) \<longrightarrow>
      fetch_and_transform_location cfg loc (with_validate (WeatherAPIClient net) v) w =
        (Inr None,
         (after_failures cfg loc k w)
           \<lparr>requests := Suc (requests w + k),
            trace := trace (after_failures cfg loc k w) @ [Fetch loc]\<rparr>)"
    using decoder_crash_ends[of _ net loc w cfg v] by blast
qed


theorem malformed_response_is_retried_witness:
  "(\<exists>rest. trace (snd (fetch_and_transform_location default_config ''Kandy,Sri Lanka''
                        (with_validate (WeatherAPIClient malformed_network) validate_weather_data)
                        initial_world)) =
            Fetch ''Kandy,Sri Lanka'' # Sleep 5 # Fetch ''Kandy,Sri Lanka'' # rest) \<and>
   fetch_and_transform_location (default_config\<lparr>MAX_RETRIES := 1\<rparr>) ''Kandy,Sri Lanka''
     (with_validate (WeatherAPIClient malformed_network) validate_weather_data) initial_world =
     (Inr None, \<lparr>clock = 1700000000, requests = 1, trace = [Fetch ''Kandy,Sri Lanka'']\<rparr>) \<and>
   fetch_and_transform_location default_config ''Kandy,Sri Lanka''
     (with_validate (WeatherAPIClient steady_network) reject_all) initial_world =
     (Inr None, \<lparr>clock = 1700000000, requests = 1, trace = [Fetch ''Kandy,Sri Lanka'']\<rparr>) \<and>
   fetch_and_transform_location default_config ''Kandy,Sri Lanka''
     (with_validate (WeatherAPIClient recovering_network) reject_all) initial_world =
     (Inr None, \<lparr>clock = 1700000005, requests = 2,
        trace = [Fetch ''Kandy,Sri Lanka'', Sleep 5, Fetch ''Kandy,Sri Lanka'']\<rparr>) \<and>
   fetch_and_transform_location default_config ''Kandy,Sri Lanka''
     (with_validate (WeatherAPIClient crashing_network) validate_weather_data) initial_world =
     (Inr None, \<lparr>clock = 1700000005, requests = 2,
        trace = [Fetch ''Kandy,Sri Lanka'', Sleep 5, Fetch ''Kandy,Sri Lanka'']\<rparr>)"
proof -
  let ?loc = "''Kandy,Sri Lanka''"
  have a: "malformed_network (requests initial_world) ?loc = Undecodable \<and>
           1 < MAX_RETRIES default_config \<and> 0 \<le> RETRY_DELAY_SECONDS default_config"
    by (simp add: malformed_network_def default_config_def)
  have b: "malformed_network (requests initial_world) ?loc = Undecodable \<and>
           MAX_RETRIES (default_config\<lparr>MAX_RETRIES := 1\<rparr>) = 1"
    by (simp add: malformed_network_def)
  obtain obs where t: "transform_weather_data ?loc sample_payload (clock initial_world) = Inr obs"
    using transform_shaped[OF sample_payload_shaped, of "clock initial_world" ?loc]
    by (auto simp: clock_ok_def initial_world_def)
  have d: "steady_network (requests initial_world) ?loc = Body sample_payload \<and>
      transform_weather_data ?loc sample_payload (clock initial_world) = Inr obs \<and>
      \<not> reject_all obs \<and> 0 < MAX_RETRIES default_config"
    using t by (simp add: steady_network_def reject_all_def default_config_def)
  have 1: "\<exists>rest. trace (snd (fetch_and_transform_location default_config ?loc
                        (with_validate (WeatherAPIClient malformed_network) validate_weather_data)
                        initial_world)) =
            Fetch ?loc # Sleep 5 # Fetch ?loc # rest"
    using malformed_response_is_retried[of malformed_network initial_world ?loc default_config
        validate_weather_data] a
    by (simp add: initial_world_def default_config_def)
  have 2: "fetch_and_transform_location (default_config\<lparr>MAX_RETRIES := 1\<rparr>) ?loc
     (with_validate (WeatherAPIClient malformed_network) validate_weather_data) initial_world =
     (Inr None, \<lparr>clock = 1700000000, requests = 1, trace = [Fetch ?loc]\<rparr>)"
    using malformed_response_is_retried[of malformed_network initial_world ?loc
        "default_config\<lparr>MAX_RETRIES := 1\<rparr>" validate_weather_data] b
    by (simp add: initial_world_def)
  have af0: "after_failures default_config ?loc 0 initial_world = initial_world"
    by (simp add: after_failures_def)
  have e0: "(\<forall>i<0. fetch_fails steady_network ?loc (requests initial_world + i)) \<and>
      steady_network (requests initial_world + 0) ?loc = Body sample_payload \<and>
      transform_weather_data ?loc sample_payload
        (clock (after_failures default_config ?loc 0 initial_world)) = Inr obs \<and>
      \<not> reject_all obs \<and> int 0 < MAX_RETRIES default_config \<and>
      ((0::nat) = 0 \<or> 0 \<le> RETRY_DELAY_SECONDS default_config)"
    using d by (simp add: af0)
  have 3: "fetch_and_transform_location default_config ?loc
     (with_validate (WeatherAPIClient steady_network) reject_all) initial_world =
     (Inr None, \<lparr>clock = 1700000000, requests = 1, trace = [Fetch ?loc]\<rparr>)"
    using malformed_response_is_retried[of steady_network initial_world ?loc default_config
        reject_all, THEN conjunct2, THEN conjunct2, THEN conjunct2, THEN conjunct1,
        rule_format, OF e0]
    by (simp add: af0) (simp add: initial_world_def)
  obtain obs' where t0: "transform_weather_data ?loc sample_payload 1700000005 = Inr obs'"
    using transform_shaped[OF sample_payload_shaped, of 1700000005 ?loc]
    by (auto simp: clock_ok_def)
  have t': "transform_weather_data ?loc sample_payload
              (clock (after_failures default_config ?loc 1 initial_world)) = Inr obs'"
    using t0 by (simp add: after_failures_def default_config_def initial_world_def)
  have e: "(\<forall>i<1. fetch_fails recovering_network ?loc (requests initial_world + i)) \<and>
      recovering_network (requests initial_world + 1) ?loc = Body sample_payload \<and>
      transform_weather_data ?loc sample_payload
        (clock (after_failures default_config ?loc 1 initial_world)) = Inr obs' \<and>
      \<not> reject_all obs' \<and> int 1 < MAX_RETRIES default_config \<and>
      ((1::nat) = 0 \<or> 0 \<le> RETRY_DELAY_SECONDS default_config)"
    using t' by (simp add: fetch_fails_def recovering_network_def reject_all_def
        default_config_def initial_world_def)
  have f: "(\<forall>i<1. fetch_fails crashing_network ?loc (requests initial_world + i)) \<and>
      crashing_network (requests initial_world + 1) ?loc = DecoderCrashed \<and>
      int 1 < MAX_RETRIES default_config \<and>
      ((1::nat) = 0 \<or> 0 \<le> RETRY_DELAY_SECONDS default_config)"
    by (simp add: fetch_fails_def crashing_network_def default_config_def initial_world_def)
  have 4: "fetch_and_transform_location default_config ?loc
     (with_validate (WeatherAPIClient recovering_network) reject_all) initial_world =
     (Inr None, \<lparr>clock = 1700000005, requests = 2,
        trace = [Fetch ?loc, Sleep 5, Fetch ?loc]\<rparr>)"
    using malformed_response_is_retried[of recovering_network initial_world ?loc default_config
        reject_all, THEN conjunct2, THEN conjunct2, THEN conjunct2, THEN conjunct1,
        rule_format, OF e]
    by (simp add: after_failures_def default_config_def initial_world_def)
  have 5: "fetch_and_transform_location default_config ?loc
     (with_validate (WeatherAPIClient crashing_network) validate_weather_data) initial_world =
     (Inr None, \<lparr>clock = 1700000005, requests = 2,
        trace = [Fetch ?loc, Sleep 5, Fetch ?loc]\<rparr>)"
    using malformed_response_is_retried[of crashing_network initial_world ?loc default_config
        validate_weather_data, THEN conjunct2, THEN conjunct2, THEN conjunct2, THEN conjunct2,
        rule_format, OF f]
    by (simp add: after_failures_def default_config_def initial_world_def)
  show ?thesis using 1 2 3 4 5 by blast
qed

section \<open>Properties of the orchestrator\<close>

lemma py_strip_blank: "py_strip s = [] \<longleftrightarrow> (\<forall>ch\<in>set s. is_space ch)"
proof
  assume "py_strip s = []"
  then have "\<forall>ch\<in>set (dropWhile is_space s). is_space ch"
    by (simp add: py_strip_def)
  then have "dropWhile is_space s = []"
    using hd_dropWhile[of is_space s] hd_in_set[of "dropWhile is_space s"] by blast
  then show "\<forall>ch\<in>set s. is_space ch" by simp
next
  assume "\<forall>ch\<in>set s. is_space ch"
  then have d: "dropWhile is_space s = []" by simp
  show "py_strip s = []" unfolding py_strip_def d by simp
qed

lemma exc_bind_InlE:
  assumes "exc_bind m f = Inl e"
  obtains "m = Inl e" | x where "m = Inr x" "f x = Inl e"
  using assms by (cases m) auto

lemma py_get_default_raises: "py_get_default x k d = Inl e \<Longrightarrow> is_Exception e"
  by (cases x) auto

lemma py_get_raises: "py_get x k = Inl e \<Longrightarrow> is_Exception e"
  unfolding py_get_def by (rule py_get_default_raises)

lemma py_index0_raises: "py_index0 x = Inl e \<Longrightarrow> is_Exception e"
  by (induction x rule: py_index0.induct) auto

lemma fromtimestamp_raises: "fromtimestamp x = Inl e \<Longrightarrow> is_Exception e"
  by (cases x) (auto split: if_splits)

lemma kelvin_to_celsius_raises: "kelvin_to_celsius x = Inl e \<Longrightarrow> is_Exception e"
  by (cases x) (auto split: if_splits)

lemma transform_raises:
  assumes "transform_weather_data loc raw now = Inl e"
  shows "is_Exception e"
  using assms unfolding transform_weather_data_def
  by (elim exc_bind_InlE)
     (auto dest: py_get_default_raises py_get_raises py_index0_raises fromtimestamp_raises
        kelvin_to_celsius_raises)


lemma attempt_loop_LOCATIONS:
  "attempt_loop (cfg\<lparr>LOCATIONS := ls\<rparr>) c loc xs w = attempt_loop cfg c loc xs w"
  by (induction xs arbitrary: w) (auto split: prod.splits sum.splits)

lemma fetch_and_transform_LOCATIONS:
  "fetch_and_transform_location (cfg\<lparr>LOCATIONS := ls\<rparr>) loc c w =
   fetch_and_transform_location cfg loc c w"
  by (simp add: fetch_and_transform_location_def attempt_loop_LOCATIONS)

lemma process_loop_LOCATIONS:
  "process_loop (cfg\<lparr>LOCATIONS := ls\<rparr>) c entries acc w = process_loop cfg c entries acc w"
  by (induction entries arbitrary: acc w)
     (auto simp: Let_def fetch_and_transform_LOCATIONS split: prod.splits sum.splits option.splits)

lemma process_loop_blank:
  assumes "\<forall>ch\<in>set entry. is_space ch"
  shows "process_loop cfg c (pre @ entry # post) acc w = process_loop cfg c (pre @ post) acc w"
proof (induction pre arbitrary: acc w)
  case Nil
  have "py_strip entry = []" using assms by (simp add: py_strip_blank)
  then show ?case by simp
next
  case (Cons a pre)
  show ?case
    by (simp add: Let_def Cons.IH split: prod.splits sum.splits option.splits)
qed

lemma run_etl_cong:
  assumes "process_locations cfg c w = process_locations cfg' c w"
  shows "run_etl cfg c db w s = run_etl cfg' c db w s"
  using assms by (simp add: run_etl_def)

text \<open>
  Claim C10, as stated, fails: the blank entry of the scenario is counted in the line
  that announces the locations to process, which prints 3 for two locations.
\<close>

theorem blank_location_counted_counterexample:
  "LOCATIONS scenario_config = [''Kandy,Sri Lanka'', '' '', ''Colombo,Sri Lanka''] \<and>
   py_strip '' '' = [] \<and>
   locations_announced scenario_config = 3 \<and>
   locations_announced
     (scenario_config\<lparr>LOCATIONS := [''Kandy,Sri Lanka'', ''Colombo,Sri Lanka'']\<rparr>) = 2"
  by (simp add: scenario_config_def locations_announced_def py_strip_def is_space_def)

text \<open>
  Claim C10, amended. A configured entry that is empty or all whitespace is skipped:
  it triggers no fetch attempt and contributes no observation, so \<open>_process_locations\<close>
  and the whole cycle, with its summary of processed and saved counts, run as if the
  entry were not configured (the code keeps no count of failed locations). Only the
  line logged before the loop counts every configured entry, the blank one included.
\<close>

theorem blank_locations_skipped:
  assumes "LOCATIONS cfg = pre @ entry # post" and "\<forall>ch\<in>set entry. is_space ch"
  shows "py_strip entry = [] \<and>
         process_locations cfg c w = process_locations (cfg\<lparr>LOCATIONS := pre @ post\<rparr>) c w \<and>
         run_etl cfg c db w s = run_etl (cfg\<lparr>LOCATIONS := pre @ post\<rparr>) c db w s \<and>
         locations_announced cfg =
           Suc (locations_announced (cfg\<lparr>LOCATIONS := pre @ post\<rparr>))"
proof -
  have p: "py_strip entry = [] \<and>
           process_locations cfg c w = process_locations (cfg\<lparr>LOCATIONS := pre @ post\<rparr>) c w"
    using assms process_loop_blank[OF assms(2), of cfg c pre post "[]" w]
    by (simp add: process_locations_def process_loop_LOCATIONS py_strip_blank)
  then have r: "run_etl cfg c db w s = run_etl (cfg\<lparr>LOCATIONS := pre @ post\<rparr>) c db w s"
    by (intro run_etl_cong) simp
  have a: "locations_announced cfg = Suc (locations_announced (cfg\<lparr>LOCATIONS := pre @ post\<rparr>))"
    by (simp add: locations_announced_def assms(1))
  show ?thesis using p r a by blast
qed

theorem blank_locations_skipped_witness:
  "process_locations scenario_config (WeatherAPIClient scenario_network) initial_world =
   process_locations
     (scenario_config\<lparr>LOCATIONS := [''Kandy,Sri Lanka''] @ [''Colombo,Sri Lanka'']\<rparr>)
     (WeatherAPIClient scenario_network) initial_world \<and>
   run_etl scenario_config (WeatherAPIClient scenario_network) flaky_database
     initial_world empty_store =
   run_etl
     (scenario_config\<lparr>LOCATIONS := [''Kandy,Sri Lanka''] @ [''Colombo,Sri Lanka'']\<rparr>)
     (WeatherAPIClient scenario_network) flaky_database initial_world empty_store \<and>
   process_locations
     (scenario_config\<lparr>LOCATIONS := [''Kandy,Sri Lanka''] @ [CHR 0xA0, CHR 0x09] # []\<rparr>)
     (WeatherAPIClient scenario_network) initial_world =
   process_locations
     (scenario_config\<lparr>LOCATIONS := [''Kandy,Sri Lanka'']\<rparr>)
     (WeatherAPIClient scenario_network) initial_world"
proof -
  have l: "LOCATIONS scenario_config = [''Kandy,Sri Lanka''] @ '' '' # [''Colombo,Sri Lanka'']"
    by (simp add: scenario_config_def)
  have b: "\<forall>ch\<in>set '' ''. is_space ch" by (simp add: is_space_def)
  let ?cfg = "scenario_config\<lparr>LOCATIONS := [''Kandy,Sri Lanka''] @ [CHR 0xA0, CHR 0x09] # []\<rparr>"
  have l': "LOCATIONS ?cfg = [''Kandy,Sri Lanka''] @ [CHR 0xA0, CHR 0x09] # []" by simp
  have b': "\<forall>ch\<in>set [CHR 0xA0, CHR 0x09]. is_space ch" by (simp add: is_space_def)
  show ?thesis
    using blank_locations_skipped[OF l b, of "WeatherAPIClient scenario_network" initial_world
        flaky_database empty_store]
      blank_locations_skipped[OF l' b', of "WeatherAPIClient scenario_network" initial_world
        flaky_database empty_store]
    by simp
qed

lemma try_attempt_raises:
  assumes "fetch c = fetch_weather_data net" "transform c = transform_weather_data"
    and "try_attempt c loc w = (Inl e, w1)"
  shows "is_Exception e"
  using assms
  by (cases "net (requests w) loc")
     (auto simp: try_attempt_def fetch_weather_data_def split: sum.splits dest: transform_raises)

lemma attempt_loop_raises:
  assumes c: "fetch c = fetch_weather_data net" "transform c = transform_weather_data"
  shows "attempt_loop cfg c loc xs w = (Inl e, w') \<Longrightarrow> is_Exception e"
proof (induction xs arbitrary: w)
  case Nil
  then show ?case by simp
next
  case (Cons a xs)
  obtain res w1 where t: "try_attempt c loc w = (res, w1)" by (cases "try_attempt c loc w")
  show ?case
  proof (cases res)
    case (Inr r)
    then show ?thesis using Cons.prems t by simp
  next
    case (Inl e0)
    have e0: "is_Exception e0" using try_attempt_raises[OF c] t Inl by blast
    show ?thesis
    proof (cases "e0 = WeatherAPIError \<and> a < MAX_RETRIES cfg - 1")
      case True
      show ?thesis
      proof (cases "py_sleep (RETRY_DELAY_SECONDS cfg) w1")
        case (Inl e')
        then have "e' = ValueError" by (auto simp: py_sleep_def split: if_splits)
        then show ?thesis using Cons.prems t \<open>res = Inl e0\<close> True Inl by simp
      next
        case (Inr w2)
        then have "attempt_loop cfg c loc xs w2 = (Inl e, w')"
          using Cons.prems t Inl True by simp
        then show ?thesis by (rule Cons.IH)
      qed
    next
      case False
      then show ?thesis using Cons.prems t Inl e0 by (auto split: if_splits)
    qed
  qed
qed

lemma fetch_and_transform_raises:
  assumes "fetch c = fetch_weather_data net" "transform c = transform_weather_data"
    and "fetch_and_transform_location cfg loc c w = (Inl e, w')"
  shows "is_Exception e"
  using attempt_loop_raises[OF assms(1,2)] assms(3)
  unfolding fetch_and_transform_location_def by blast

lemma process_loop_partial_success:
  assumes "\<And>loc w e w'. fetch_and_transform_location cfg loc c w = (Inl e, w') \<Longrightarrow> is_Exception e"
  shows "process_loop cfg c entries acc w =
           (Inr (acc @ fst (partial_success cfg c entries w)),
            snd (partial_success cfg c entries w))"
proof (induction entries arbitrary: acc w)
  case Nil
  then show ?case by simp
next
  case (Cons entry entries)
  show ?case
  proof (cases "py_strip entry = []")
    case True
    then show ?thesis using Cons.IH by simp
  next
    case False
    obtain outcome w1 where f:
      "fetch_and_transform_location cfg (py_strip entry) c w = (outcome, w1)"
      by (cases "fetch_and_transform_location cfg (py_strip entry) c w")
    show ?thesis
    proof (cases outcome)
      case (Inl e)
      then have "is_Exception e" using assms f by blast
      then show ?thesis using False f Inl Cons.IH
        by (simp add: Let_def split: prod.splits)
    next
      case (Inr r)
      then show ?thesis using False f Cons.IH
        by (cases r) (simp_all add: Let_def split: prod.splits)
    qed
  qed
qed

lemma attempt_loop_first_fetch:
  assumes "fetch c = fetch_weather_data net"
  shows "\<exists>r. trace (snd (attempt_loop cfg c loc (a # xs) w)) = trace w @ Fetch loc # r"
proof -
  obtain res w1 where t: "try_attempt c loc w = (res, w1)" by (cases "try_attempt c loc w")
  have w1: "w1 = w\<lparr>requests := Suc (requests w), trace := trace w @ [Fetch loc]\<rparr>"
    using try_attempt_world[OF assms, of loc w] t by simp
  show ?thesis
  proof (cases res)
    case (Inr r)
    then show ?thesis using t w1 by simp
  next
    case (Inl e)
    show ?thesis
    proof (cases "e = WeatherAPIError \<and> a < MAX_RETRIES cfg - 1 \<and> 0 \<le> RETRY_DELAY_SECONDS cfg")
      case True
      let ?w2 = "w1\<lparr>clock := clock w1 + of_int (RETRY_DELAY_SECONDS cfg),
                     trace := trace w1 @ [Sleep (RETRY_DELAY_SECONDS cfg)]\<rparr>"
      obtain r where "trace (snd (attempt_loop cfg c loc xs ?w2)) = trace ?w2 @ r"
        using attempt_loop_trace_extends[OF assms] by blast
      then show ?thesis using t Inl True w1 by (simp add: py_sleep_def)
    next
      case False
      then show ?thesis using t Inl w1 by (auto simp: py_sleep_def)
    qed
  qed
qed

lemma fetch_and_transform_first_fetch:
  assumes "fetch c = fetch_weather_data net" "0 < MAX_RETRIES cfg"
  shows "\<exists>r. trace (snd (fetch_and_transform_location cfg loc c w)) = trace w @ Fetch loc # r"
proof -
  have "[0 .. MAX_RETRIES cfg - 1] = 0 # [1 .. MAX_RETRIES cfg - 1]"
    using assms(2) by (simp add: upto_rec1)
  then show ?thesis
    using attempt_loop_first_fetch[OF assms(1)] by (simp add: fetch_and_transform_location_def)
qed

lemma fetch_and_transform_trace_extends:
  assumes "fetch c = fetch_weather_data net"
  shows "\<exists>r. trace (snd (fetch_and_transform_location cfg loc c w)) = trace w @ r"
  unfolding fetch_and_transform_location_def
  using attempt_loop_trace_extends[OF assms] by blast

lemma partial_success_trace_extends:
  assumes "fetch c = fetch_weather_data net"
  shows "\<exists>r. trace (snd (partial_success cfg c entries w)) = trace w @ r"
proof (induction entries arbitrary: w)
  case Nil
  then show ?case by simp
next
  case (Cons entry entries)
  show ?case
  proof (cases "py_strip entry = []")
    case True
    then show ?thesis using Cons.IH by simp
  next
    case False
    obtain outcome w1 where f:
      "fetch_and_transform_location cfg (py_strip entry) c w = (outcome, w1)"
      by (cases "fetch_and_transform_location cfg (py_strip entry) c w")
    obtain r1 where r1: "trace w1 = trace w @ r1"
      using fetch_and_transform_trace_extends[OF assms] f by (metis snd_conv)
    obtain r2 where "trace (snd (partial_success cfg c entries w1)) = trace w1 @ r2"
      using Cons.IH by blast
    then show ?thesis using False f r1 by (auto split: prod.splits)
  qed
qed

lemma partial_success_fetches:
  assumes "fetch c = fetch_weather_data net" "0 < MAX_RETRIES cfg"
  shows "entry \<in> set entries \<Longrightarrow> py_strip entry \<noteq> [] \<Longrightarrow>
         Fetch (py_strip entry) \<in> set (trace (snd (partial_success cfg c entries w)))"
proof (induction entries arbitrary: w)
  case Nil
  then show ?case by simp
next
  case (Cons x entries)
  show ?case
  proof (cases "py_strip x = []")
    case True
    then have "entry \<in> set entries" using Cons.prems by auto
    then show ?thesis using True Cons.IH Cons.prems(2) by simp
  next
    case False
    obtain outcome w1 where f:
      "fetch_and_transform_location cfg (py_strip x) c w = (outcome, w1)"
      by (cases "fetch_and_transform_location cfg (py_strip x) c w")
    obtain r1 where r1: "trace w1 = trace w @ Fetch (py_strip x) # r1"
      using fetch_and_transform_first_fetch[OF assms] f by (metis snd_conv)
    obtain r2 where r2: "trace (snd (partial_success cfg c entries w1)) = trace w1 @ r2"
      using partial_success_trace_extends[OF assms(1)] by blast
    have eq: "snd (partial_success cfg c (x # entries) w) = snd (partial_success cfg c entries w1)"
      using False f by (simp split: prod.splits)
    show ?thesis
    proof (cases "entry = x")
      case True
      then show ?thesis using eq r1 r2 by simp
    next
      case False
      then have "entry \<in> set entries" using Cons.prems by auto
      then show ?thesis using eq Cons.IH Cons.prems(2) by simp
    qed
  qed
qed

text \<open>
  Claim C6. Whatever the fetch, the transformation or the validation of a location
  does, \<open>_process_locations\<close> returns: its result is the partial success of the
  configured list, where every location is processed on its own, a failed location
  contributes nothing and the others contribute their observation; and every entry that
  is not blank is fetched at least once when \<open>MAX_RETRIES\<close> is positive.
\<close>

theorem location_failure_does_not_abort:
  "\<exists>observations w'.
     process_locations cfg (with_validate (WeatherAPIClient net) v) w = (Inr observations, w') \<and>
     (observations, w') =
        partial_success cfg (with_validate (WeatherAPIClient net) v) (LOCATIONS cfg) w \<and>
     (0 < MAX_RETRIES cfg \<longrightarrow>
        (\<forall>entry\<in>set (LOCATIONS cfg). py_strip entry \<noteq> [] \<longrightarrow>
           Fetch (py_strip entry) \<in> set (trace w')))"
proof -
  let ?c = "with_validate (WeatherAPIClient net) v"
  have c: "fetch ?c = fetch_weather_data net" "transform ?c = transform_weather_data"
    by simp_all
  have "process_locations cfg ?c w =
          (Inr (fst (partial_success cfg ?c (LOCATIONS cfg) w)),
           snd (partial_success cfg ?c (LOCATIONS cfg) w))"
    unfolding process_locations_def
    using process_loop_partial_success[of cfg ?c "LOCATIONS cfg" "[]" w]
      fetch_and_transform_raises[OF c]
    by simp
  then show ?thesis
    using partial_success_fetches[OF c(1), of cfg _ "LOCATIONS cfg" w] by auto
qed


lemma py_strip_examples:
  "py_strip ''Kandy,Sri Lanka'' = ''Kandy,Sri Lanka''"
  "py_strip '' '' = []"
  "py_strip ''Colombo,Sri Lanka'' = ''Colombo,Sri Lanka''"
  by (simp_all add: py_strip_def is_space_def)

theorem location_failure_does_not_abort_witness:
  "\<exists>obs w'.
     process_locations scenario_config
       (with_validate (WeatherAPIClient scenario_network) validate_weather_data) initial_world =
       (Inr [obs], w') \<and>
     location obs = ''Colombo,Sri Lanka'' \<and>
     trace w' = [Fetch ''Kandy,Sri Lanka'', Sleep 0, Fetch ''Kandy,Sri Lanka'',
                 Fetch ''Colombo,Sri Lanka'']"
proof -
  let ?c = "with_validate (WeatherAPIClient scenario_network) validate_weather_data"
  obtain obs where t:
    "transform_weather_data ''Colombo,Sri Lanka'' sample_payload 1700000000 = Inr obs"
    "location obs = ''Colombo,Sri Lanka''"
    using transform_shaped[OF sample_payload_shaped, of 1700000000 "''Colombo,Sri Lanka''"]
    by (auto simp: clock_ok_def)
  have up: "[0 .. MAX_RETRIES scenario_config - 1] = [0, 1]"
    by (simp add: scenario_config_def upto_rec1)
  have k: "fetch_and_transform_location scenario_config ''Kandy,Sri Lanka'' ?c initial_world =
             (Inr None, \<lparr>clock = 1700000000, requests = 2,
                trace = [Fetch ''Kandy,Sri Lanka'', Sleep 0, Fetch ''Kandy,Sri Lanka'']\<rparr>)"
    unfolding fetch_and_transform_location_def up
    by (simp add: try_attempt_def fetch_weather_data_def scenario_network_def py_sleep_def
          initial_world_def scenario_config_def)
  have co: "fetch_and_transform_location scenario_config ''Colombo,Sri Lanka'' ?c
              \<lparr>clock = 1700000000, requests = 2,
                trace = [Fetch ''Kandy,Sri Lanka'', Sleep 0, Fetch ''Kandy,Sri Lanka'']\<rparr> =
             (Inr (Some obs), \<lparr>clock = 1700000000, requests = 3,
                trace = [Fetch ''Kandy,Sri Lanka'', Sleep 0, Fetch ''Kandy,Sri Lanka'',
                         Fetch ''Colombo,Sri Lanka'']\<rparr>)"
    unfolding fetch_and_transform_location_def up
    by (simp add: try_attempt_def fetch_weather_data_def scenario_network_def t(1)
          validate_weather_data_def)
  have ps: "partial_success scenario_config ?c (LOCATIONS scenario_config) initial_world =
              ([obs], \<lparr>clock = 1700000000, requests = 3,
                trace = [Fetch ''Kandy,Sri Lanka'', Sleep 0, Fetch ''Kandy,Sri Lanka'',
                         Fetch ''Colombo,Sri Lanka'']\<rparr>)"
    by (simp add: scenario_config_def[THEN arg_cong, of LOCATIONS] py_strip_examples k co)
  show ?thesis
    using location_failure_does_not_abort[of scenario_config scenario_network
        validate_weather_data initial_world] ps t(2)
    by auto
qed

section \<open>Properties of the store\<close>






section \<open>Properties of the scheduling loop\<close>

lemma run_pending_contained:
  assumes "\<forall>e. pipeline_outcome t = Inl e \<longrightarrow> is_Exception e"
  shows "run_pending t s =
           (None, s\<lparr>log := log s @ tick_log t,
                    cycles_started := cycles_started s + (if due t then 1 else 0)\<rparr>)"
proof (cases "due t")
  case False
  then show ?thesis by (simp add: run_pending_def tick_log_def)
next
  case True
  show ?thesis
  proof (cases "pipeline_outcome t")
    case (Inl e)
    then have "is_Exception e" using assms by blast
    then show ?thesis using True Inl by (simp add: run_pending_def run_etl_job_def tick_log_def)
  next
    case (Inr success)
    then show ?thesis using True by (simp add: run_pending_def run_etl_job_def tick_log_def)
  qed
qed

text \<open>
  Claim C9. While the scheduler is running and no stop is requested, an exception
  raised by a cycle is caught and logged by \<open>_run_etl_job\<close> and the loop goes on: every
  iteration is executed, every due job is started, also after a cycle that raised, and
  the scheduler is still running.
\<close>

theorem cycle_exception_is_contained:
  assumes "running s"
    and "\<forall>t\<in>set ticks. \<not> stop_requested t"
    and "\<forall>t\<in>set ticks. \<forall>e. pipeline_outcome t = Inl e \<longrightarrow> is_Exception e"
  shows "run_scheduler_loop ticks s =
           s\<lparr>log := log s @ concat (map tick_log ticks),
             cycles_started := cycles_started s + length (filter due ticks),
             slept := slept s + 60 * length ticks\<rparr>"
  using assms
proof (induction ticks arbitrary: s)
  case Nil
  then show ?case by simp
next
  case (Cons t ticks)
  let ?s1 = "s\<lparr>log := log s @ tick_log t,
                cycles_started := cycles_started s + (if due t then 1 else 0)\<rparr>"
  have rp: "run_pending t s = (None, ?s1)"
    using run_pending_contained[of t s] Cons.prems(3) by simp
  have st: "observe_stop t (sleep60 ?s1) = ?s1\<lparr>slept := slept s + 60\<rparr>"
    using Cons.prems(1,2) by (simp add: observe_stop_def sleep60_def)
  have "run_scheduler_loop (t # ticks) s = run_scheduler_loop ticks (?s1\<lparr>slept := slept s + 60\<rparr>)"
    using Cons.prems(1) rp st by simp
  also have "\<dots> = (?s1\<lparr>slept := slept s + 60\<rparr>)
           \<lparr>log := log (?s1\<lparr>slept := slept s + 60\<rparr>) @ concat (map tick_log ticks),
             cycles_started := cycles_started (?s1\<lparr>slept := slept s + 60\<rparr>) + length (filter due ticks),
             slept := slept (?s1\<lparr>slept := slept s + 60\<rparr>) + 60 * length ticks\<rparr>"
    using Cons.prems by (intro Cons.IH) simp_all
  finally show ?case by simp
qed

theorem cycle_exception_is_contained_witness:
  "run_scheduler_loop [failing_tick, passing_tick] (stopped_scheduler\<lparr>running := True\<rparr>) =
     \<lparr> running = True,
       log = [Info ''Starting scheduled ETL job'', Error ''Error in scheduled ETL job'',
              Info ''Starting scheduled ETL job'',
              Info ''Scheduled ETL job completed successfully''],
       cycles_started = 2, slept = 120 \<rparr>"
proof -
  have h: "running (stopped_scheduler\<lparr>running := True\<rparr>)"
    "\<forall>t\<in>set [failing_tick, passing_tick]. \<not> stop_requested t"
    "\<forall>t\<in>set [failing_tick, passing_tick]. \<forall>e. pipeline_outcome t = Inl e \<longrightarrow> is_Exception e"
    by (simp_all add: failing_tick_def passing_tick_def)
  show ?thesis
    using cycle_exception_is_contained[of "stopped_scheduler\<lparr>running := True\<rparr>"
        "[failing_tick, passing_tick]"] h
    by (simp add: failing_tick_def passing_tick_def stopped_scheduler_def tick_log_def)
qed

text \<open>\<^verbatim>\<open>KeyboardInterrupt\<close> is no \<^verbatim>\<open>Exception\<close>: it ends the loop, and the job of the
  next iteration is not started.\<close>

lemma keyboard_interrupt_ends_loop:
  "running (run_scheduler_loop [interrupted_tick, passing_tick]
              (stopped_scheduler\<lparr>running := True\<rparr>)) = False \<and>
   cycles_started (run_scheduler_loop [interrupted_tick, passing_tick]
              (stopped_scheduler\<lparr>running := True\<rparr>)) = 1"
  by (simp add: interrupted_tick_def passing_tick_def stopped_scheduler_def run_pending_def
        run_etl_job_def)

section \<open>Properties of the queries\<close>

lemma newest_first_None: "newest_first rs = None \<longleftrightarrow> rs = []"
  by (induction rs) (auto split: option.splits)

lemma newest_first_Some:
  "newest_first rs = Some r \<Longrightarrow>
     r \<in> set rs \<and> (\<forall>x\<in>set rs. fetched_at_utc x \<le> fetched_at_utc r)"
proof (induction rs arbitrary: r)
  case Nil
  then show ?case by simp
next
  case (Cons a rs)
  show ?case
  proof (cases "newest_first rs")
    case None
    then have "rs = []" by (simp add: newest_first_None)
    then show ?thesis using Cons.prems by simp
  next
    case (Some b)
    then have b: "b \<in> set rs" "\<forall>x\<in>set rs. fetched_at_utc x \<le> fetched_at_utc b"
      using Cons.IH by blast+
    show ?thesis
    proof (cases "fetched_at_utc a < fetched_at_utc b")
      case True
      then have "r = b" using Cons.prems Some by simp
      then show ?thesis using b True by auto
    next
      case False
      then have "r = a" using Cons.prems Some by simp
      then show ?thesis using b False by fastforce
    qed
  qed
qed

text \<open>
  Claim C3, amended. \<open>get_weather_by_location\<close> returns at most one row: when no
  location matches the \<^verbatim>\<open>LIKE\<close> pattern made of the term and \<^verbatim>\<open>%\<close> it returns none;
  otherwise the row it returns is stored, its location matches the pattern, no matching
  row is newer, and its \<open>fetched_at_utc\<close> is the maximum over all rows of its location.
\<close>

theorem latest_by_location_pattern:
  "(case get_weather_by_location table loc of
      None \<Rightarrow> \<forall>x\<in>set table. \<not> like_match (loc @ ''%'') (location x)
    | Some r \<Rightarrow>
        r \<in> set table \<and> like_match (loc @ ''%'') (location r) \<and>
        (\<forall>x\<in>set table. like_match (loc @ ''%'') (location x) \<longrightarrow>
           fetched_at_utc x \<le> fetched_at_utc r) \<and>
        fetched_at_utc r =
          Max (fetched_at_utc ` {x \<in> set table. location x = location r}))"
proof (cases "get_weather_by_location table loc")
  case None
  then have "filter (\<lambda>r. like_match (loc @ ''%'') (location r)) table = []"
    by (simp add: get_weather_by_location_def newest_first_None)
  then show ?thesis using None by (simp add: filter_empty_conv)
next
  case (Some r)
  let ?m = "\<lambda>x. like_match (loc @ ''%'') (location x)"
  have n: "r \<in> set (filter ?m table)"
    "\<forall>x\<in>set (filter ?m table). fetched_at_utc x \<le> fetched_at_utc r"
    using newest_first_Some[of "filter ?m table" r] Some
    by (simp_all add: get_weather_by_location_def)
  then have r: "r \<in> set table" "?m r" by simp_all
  have le: "\<forall>x\<in>set table. ?m x \<longrightarrow> fetched_at_utc x \<le> fetched_at_utc r"
    using n(2) by simp
  have "Max (fetched_at_utc ` {x \<in> set table. location x = location r}) = fetched_at_utc r"
  proof (rule Max_eqI)
    show "finite (fetched_at_utc ` {x \<in> set table. location x = location r})" by simp
    show "fetched_at_utc r \<in> fetched_at_utc ` {x \<in> set table. location x = location r}"
      using r(1) by blast
    fix y assume "y \<in> fetched_at_utc ` {x \<in> set table. location x = location r}"
    then obtain x where "x \<in> set table" "location x = location r" "y = fetched_at_utc x"
      by blast
    then show "y \<le> fetched_at_utc r" using le r(2) by simp
  qed
  then show ?thesis using Some r le by simp
qed

lemma like_match_examples:
  "like_match (''colombo'' @ ''%'') ''Colombo,Sri Lanka''"
  "like_match (''Col_mbo'' @ ''%'') ''Colombo,Sri Lanka''"
  "like_match (''Colombo'' @ ''%'') ''Colombo,Sri Lanka''"
  "\<not> like_match (''Colombo'' @ ''%'') ''Kandy,Sri Lanka''"
  by code_simp+

text \<open>
  Claim C3, as stated, fails: the match is not a case-sensitive exact prefix match. The
  terms \<^verbatim>\<open>colombo\<close> and \<^verbatim>\<open>Col_mbo\<close> both return the row of \<^verbatim>\<open>Colombo,Sri Lanka\<close>, of
  which neither is a prefix.
\<close>

theorem latest_prefix_match_counterexample:
  "get_weather_by_location [sample_observation] ''colombo'' = Some sample_observation \<and>
   \<not> prefix ''colombo'' (location sample_observation) \<and>
   get_weather_by_location [sample_observation] ''Col_mbo'' = Some sample_observation \<and>
   \<not> prefix ''Col_mbo'' (location sample_observation)"
  using like_match_examples(1,2)
  by (simp add: get_weather_by_location_def sample_observation_def)

theorem latest_by_location_pattern_witness:
  "get_weather_by_location colombo_history ''Colombo'' =
     Some (sample_observation\<lparr>fetched_at_utc := 1700007200\<rparr>) \<and>
   (1700007200::real) =
     Max (fetched_at_utc ` {x \<in> set colombo_history. location x = ''Colombo,Sri Lanka''})"
proof -
  have e: "get_weather_by_location colombo_history ''Colombo'' =
             Some (sample_observation\<lparr>fetched_at_utc := 1700007200\<rparr>)"
    using like_match_examples(3,4)
    by (simp add: get_weather_by_location_def colombo_history_def sample_observation_def)
  show ?thesis
    using latest_by_location_pattern[of colombo_history "''Colombo''"] e
    by (simp add: sample_observation_def)
qed

lemma sql_max_Max: "xs \<noteq> [] \<Longrightarrow> sql_max xs = Some (Max (set xs))"
proof (cases xs)
  case Nil
  assume "xs \<noteq> []"
  then show ?thesis using Nil by simp
next
  case (Cons x ys)
  have "Max (set (x # ys)) = fold max ys x" by (rule Max.set_eq_fold)
  then show ?thesis unfolding Cons by (simp only: sql_max.simps)
qed

lemma group_max:
  assumes "loc \<in> set (map location table)"
  shows "sql_max (map fetched_at_utc (filter (\<lambda>r. location r = loc) table)) =
           Some (Max (fetched_at_utc ` {r \<in> set table. location r = loc}))"
proof -
  have "filter (\<lambda>r. location r = loc) table \<noteq> []"
    using assms by (auto simp: filter_empty_conv)
  then have ne: "map fetched_at_utc (filter (\<lambda>r. location r = loc) table) \<noteq> []" by simp
  have s: "set (map fetched_at_utc (filter (\<lambda>r. location r = loc) table)) =
           fetched_at_utc ` {r \<in> set table. location r = loc}"
    by simp
  show ?thesis using sql_max_Max[OF ne] unfolding s .
qed


lemma distinct_concat_keyed:
  assumes "distinct ls" "\<And>l. f l = [] \<or> (\<exists>v. f l = [(l, v)])"
  shows "distinct (map fst (concat (map f ls)))"
  using assms(1)
proof (induction ls)
  case Nil
  then show ?case by simp
next
  case (Cons a ls)
  have sub: "fst ` set (concat (map f ls)) \<subseteq> set ls"
  proof
    fix k assume "k \<in> fst ` set (concat (map f ls))"
    then obtain l v where l: "l \<in> set ls" "(k, v) \<in> set (f l)" by auto
    from assms(2)[of l] l(2) have "k = l" by auto
    then show "k \<in> set ls" using l(1) by simp
  qed
  have d: "distinct (map fst (concat (map f ls)))" using Cons by simp
  from assms(2)[of a] show ?case
  proof
    assume "f a = []"
    then show ?thesis using d by simp
  next
    assume "\<exists>v. f a = [(a, v)]"
    then obtain v where v: "f a = [(a, v)]" by blast
    have "a \<notin> set ls" using Cons.prems by simp
    then have "a \<notin> fst ` set (concat (map f ls))" using sub by blast
    then show ?thesis using d v by simp
  qed
qed


lemma location_present: "loc \<in> set (map location table) \<longleftrightarrow> (\<exists>r\<in>set table. location r = loc)"
  by auto

text \<open>
  Claim C4. For a threshold that is not negative, \<open>get_stale_locations\<close> lists a
  location, with its newest fetch, exactly when the location has a row and the maximum
  of \<open>fetched_at_utc\<close> over its rows is strictly before now minus the threshold in
  minutes; every location is listed at most once, and a location without rows is never
  listed.
\<close>

theorem stale_locations_iff:
  "(0 \<le> minutes_threshold \<longrightarrow>
      (\<forall>loc latest.
         (loc, latest) \<in> set (get_stale_locations table now minutes_threshold) \<longleftrightarrow>
           (\<exists>r\<in>set table. location r = loc) \<and>
           latest = Max (fetched_at_utc ` {r \<in> set table. location r = loc}) \<and>
           latest < now - 60 * of_int minutes_threshold)) \<and>
   distinct (map fst (get_stale_locations table now minutes_threshold)) \<and>
   (\<forall>loc. (\<forall>r\<in>set table. location r \<noteq> loc) \<longrightarrow>
      loc \<notin> fst ` set (get_stale_locations table now minutes_threshold))"
proof -
  define bound where "bound = now - 60 * real_of_int minutes_threshold"
  define g where "g = (\<lambda>loc. Max (fetched_at_utc ` {r \<in> set table. location r = loc}))"
  define f where "f = (\<lambda>loc.
     case sql_max (map fetched_at_utc (filter (\<lambda>r. location r = loc) table)) of
       None \<Rightarrow> []
     | Some latest_fetch \<Rightarrow> if latest_fetch < bound then [(loc, latest_fetch)] else [])"
  define R where "R = concat (map f (remdups (map location table)))"
  have res: "get_stale_locations table now minutes_threshold =
               (if minutes_threshold < 0 then [] else R)"
    unfolding get_stale_locations_def R_def f_def bound_def ..
  have f_in: "f loc = (if g loc < bound then [(loc, g loc)] else [])"
    if "loc \<in> set (map location table)" for loc
    unfolding f_def group_max[OF that] g_def by simp
  have f_shape: "f l = [] \<or> (\<exists>v. f l = [(l, v)])" for l
    unfolding f_def by (simp split: option.splits)
  have mem: "(loc, latest) \<in> set R \<longleftrightarrow>
               (\<exists>r\<in>set table. location r = loc) \<and> latest = g loc \<and> latest < bound"
    for loc latest
  proof
    assume "(loc, latest) \<in> set R"
    then obtain l where l: "l \<in> set (map location table)" "(loc, latest) \<in> set (f l)"
      unfolding R_def by auto
    have "loc = l \<and> latest = g l \<and> latest < bound"
      using l(2) unfolding f_in[OF l(1)] by (simp split: if_splits)
    then show "(\<exists>r\<in>set table. location r = loc) \<and> latest = g loc \<and> latest < bound"
      using l(1) location_present[of l table] by blast
  next
    assume a: "(\<exists>r\<in>set table. location r = loc) \<and> latest = g loc \<and> latest < bound"
    then have p: "loc \<in> set (map location table)" using location_present[of loc table] by blast
    have "(loc, latest) \<in> set (f loc)" unfolding f_in[OF p] using a by simp
    then show "(loc, latest) \<in> set R" unfolding R_def using p by auto
  qed
  have 1: "0 \<le> minutes_threshold \<longrightarrow>
      (\<forall>loc latest.
         (loc, latest) \<in> set (get_stale_locations table now minutes_threshold) \<longleftrightarrow>
           (\<exists>r\<in>set table. location r = loc) \<and>
           latest = Max (fetched_at_utc ` {r \<in> set table. location r = loc}) \<and>
           latest < now - 60 * of_int minutes_threshold)"
  proof (intro impI allI)
    fix loc latest assume "0 \<le> minutes_threshold"
    then have "get_stale_locations table now minutes_threshold = R" using res by simp
    then show "(loc, latest) \<in> set (get_stale_locations table now minutes_threshold) \<longleftrightarrow>
           (\<exists>r\<in>set table. location r = loc) \<and>
           latest = Max (fetched_at_utc ` {r \<in> set table. location r = loc}) \<and>
           latest < now - 60 * of_int minutes_threshold"
      using mem[of loc latest] unfolding g_def bound_def by simp
  qed
  have dR: "distinct (map fst R)"
    unfolding R_def by (rule distinct_concat_keyed) (simp, rule f_shape)
  have 2: "distinct (map fst (get_stale_locations table now minutes_threshold))"
    using dR res by simp
  have 3: "\<forall>loc. (\<forall>r\<in>set table. location r \<noteq> loc) \<longrightarrow>
             loc \<notin> fst ` set (get_stale_locations table now minutes_threshold)"
  proof (intro allI impI notI)
    fix loc assume no: "\<forall>r\<in>set table. location r \<noteq> loc"
      and "loc \<in> fst ` set (get_stale_locations table now minutes_threshold)"
    then obtain latest where "(loc, latest) \<in> set (get_stale_locations table now minutes_threshold)"
      by auto
    then have "(loc, latest) \<in> set R" using res by (simp split: if_splits)
    then have "\<exists>r\<in>set table. location r = loc" using mem by blast
    then show False using no by blast
  qed
  show ?thesis using 1 2 3 by blast
qed

lemma colombo_history_locations:
  "map location colombo_history =
     [''Colombo,Sri Lanka'', ''Colombo,Sri Lanka'', ''Kandy,Sri Lanka'', ''Colombo,Sri Lanka'']"
  "map fetched_at_utc (filter (\<lambda>r. location r = ''Colombo,Sri Lanka'') colombo_history) =
     [1700000000, 1700007200, 1700003600]"
  "map fetched_at_utc (filter (\<lambda>r. location r = ''Kandy,Sri Lanka'') colombo_history) =
     [1700009000]"
proof -
  have l: "location sample_observation = ''Colombo,Sri Lanka''"
    by (simp add: sample_observation_def)
  show "map location colombo_history =
     [''Colombo,Sri Lanka'', ''Colombo,Sri Lanka'', ''Kandy,Sri Lanka'', ''Colombo,Sri Lanka'']"
    by (simp add: colombo_history_def l)
  show "map fetched_at_utc (filter (\<lambda>r. location r = ''Colombo,Sri Lanka'') colombo_history) =
     [1700000000, 1700007200, 1700003600]"
    by (simp add: colombo_history_def l)
  show "map fetched_at_utc (filter (\<lambda>r. location r = ''Kandy,Sri Lanka'') colombo_history) =
     [1700009000]"
    by (simp add: colombo_history_def l)
qed

lemma stale_example:
  "get_stale_locations colombo_history 1700014000 90 = [(''Colombo,Sri Lanka'', 1700007200)]"
  unfolding get_stale_locations_def colombo_history_locations(1)
  by (simp add: colombo_history_locations(2,3))


theorem stale_locations_iff_witness:
  "get_stale_locations colombo_history 1700014000 90 = [(''Colombo,Sri Lanka'', 1700007200)] \<and>
   (1700007200::real) =
     Max (fetched_at_utc ` {r \<in> set colombo_history. location r = ''Colombo,Sri Lanka''}) \<and>
   (1700007200::real) < 1700014000 - 60 * of_int 90 \<and>
   ''Galle,Sri Lanka'' \<notin> fst ` set (get_stale_locations colombo_history 1700014000 90)"
proof -
  note th = stale_locations_iff[of 90 colombo_history 1700014000]
  have a: "\<forall>loc latest.
         (loc, latest) \<in> set (get_stale_locations colombo_history 1700014000 90) \<longleftrightarrow>
           (\<exists>r\<in>set colombo_history. location r = loc) \<and>
           latest = Max (fetched_at_utc ` {r \<in> set colombo_history. location r = loc}) \<and>
           latest < 1700014000 - 60 * of_int 90"
    by (rule mp[OF conjunct1[OF th]]) simp
  have m: "(''Colombo,Sri Lanka'', 1700007200) \<in>
             set (get_stale_locations colombo_history 1700014000 90)"
    unfolding stale_example by simp
  have b: "(1700007200::real) =
     Max (fetched_at_utc ` {r \<in> set colombo_history. location r = ''Colombo,Sri Lanka''}) \<and>
   (1700007200::real) < 1700014000 - 60 * of_int 90"
    using a[rule_format, of "''Colombo,Sri Lanka''" 1700007200] m by blast
  have n: "\<forall>r\<in>set colombo_history. location r \<noteq> ''Galle,Sri Lanka''"
  proof -
    have "''Galle,Sri Lanka'' \<notin> set (map location colombo_history)"
      unfolding colombo_history_locations(1) by simp
    then show ?thesis
      using location_present[of "''Galle,Sri Lanka''" colombo_history] by blast
  qed
  have c: "''Galle,Sri Lanka'' \<notin> fst ` set (get_stale_locations colombo_history 1700014000 90)"
    using conjunct2[OF conjunct2[OF th]] n by blast
  show ?thesis using stale_example b c by (intro conjI) blast+
qed

text \<open>\<open>get_latest_observations\<close>, the query with the limit, takes no location and can
  return several rows of one location.\<close>

lemma latest_observations_repeat_location:
  "map location (get_latest_observations colombo_history 3) =
     [''Kandy,Sri Lanka'', ''Colombo,Sri Lanka'', ''Colombo,Sri Lanka'']"
proof -
  have l: "location sample_observation = ''Colombo,Sri Lanka''"
    by (simp add: sample_observation_def)
  have "order_by_fetched_desc colombo_history =
     [sample_observation\<lparr>location := ''Kandy,Sri Lanka'', fetched_at_utc := 1700009000\<rparr>,
      sample_observation\<lparr>fetched_at_utc := 1700007200\<rparr>,
      sample_observation\<lparr>fetched_at_utc := 1700003600\<rparr>,
      sample_observation\<lparr>fetched_at_utc := 1700000000\<rparr>]"
    by (simp add: order_by_fetched_desc_def colombo_history_def)
  then show ?thesis
    by (simp add: get_latest_observations_def l numeral_3_eq_3)
qed

end
